theory Spec2Isabelle
  imports Complex_Main
begin

section \<open>Continuous camera capture: the embedding of capture-continuous.cpp\<close>

text \<open>
  The program drives a ZWO ASI camera through the vendor SDK: it parses its command line,
  opens the first camera, and then loops: start an exposure, poll its status every 10 ms,
  fetch the frame, write it to a file named after the wall clock, wait in 100 ms slices.
  A signal handler clears the flag \<open>keep_running\<close>, which every loop re-reads.

  The SDK, the clock, the file system, the allocator and the delivery of signals are the
  program's world: their answers are fields of a record, indexed by a tick counter that
  every interaction with the world advances. What the program does is the list of events
  it emits and the way it ends.

  Values of type \<open>double\<close> are not computed in the run of the program: the type is a
  parameter \<open>'d\<close>, and the four floating-point computations of the program (\<open>stod\<close>, the
  printing of a double, the conversion \<open>(long)(x * 1e6)\<close>, the comparison of the
  accumulated \<open>waited\<close> with the interval) are the fields of a record of operations. The
  conversion of the exposure time is also given on its own, over the reals, in
  \<open>exposure_micros\<close>.
\<close>

subsection \<open>Formatting integers as the output stream does\<close>

definition digit_char :: "nat \<Rightarrow> char" where
  "digit_char d = ''0123456789'' ! d"

fun digits :: "nat \<Rightarrow> string" where
  "digits n = (if n < 10 then [digit_char n] else digits (n div 10) @ [digit_char (n mod 10)])"

declare digits.simps [simp del]

text \<open>\<open>operator<<\<close> on an \<open>int\<close>: decimal, with a minus sign for a negative value.\<close>

definition show_int :: "int \<Rightarrow> string" where
  "show_int i = (if i < 0 then CHR ''-'' # digits (nat (- i)) else digits (nat i))"

text \<open>
  \<open>setw(w)\<close> with \<open>setfill(c)\<close> and the default adjustment: the text is padded on the
  left up to the width \<open>w\<close>, and is never cut.
\<close>

definition setw :: "nat \<Rightarrow> char \<Rightarrow> string \<Rightarrow> string" where
  "setw w c s = replicate (w - length s) c @ s"

text \<open>Division of C++ on signed integers truncates toward zero.\<close>

definition c_div :: "int \<Rightarrow> int \<Rightarrow> int" where
  "c_div a b = (if 0 \<le> a then a div b else - ((- a) div b))"

subsection \<open>The Identity Generator: \<open>make_filename_from_time\<close>\<close>

record timeval =
  tv_sec :: int
  tv_usec :: int

record tm =
  tm_sec :: int
  tm_min :: int
  tm_hour :: int
  tm_mday :: int
  tm_mon :: int
  tm_year :: int

text \<open>
  The text the function builds from the two values it samples: \<open>tv\<close>, filled by
  \<open>gettimeofday\<close>, and \<open>ltm\<close>, the broken-down local time \<open>localtime\<close> returns for
  \<open>tv.tv_sec\<close>. The year is written with no width; the fill character is \<open>0\<close> from the
  month on.
\<close>

definition make_filename :: "tm \<Rightarrow> timeval \<Rightarrow> string" where
  "make_filename ltm tv =
     ''exposure-''
     @ show_int (1900 + tm_year ltm)
     @ setw 2 CHR ''0'' (show_int (1 + tm_mon ltm))
     @ setw 2 CHR ''0'' (show_int (tm_mday ltm)) @ ''-''
     @ setw 2 CHR ''0'' (show_int (tm_hour ltm))
     @ setw 2 CHR ''0'' (show_int (tm_min ltm))
     @ setw 2 CHR ''0'' (show_int (tm_sec ltm)) @ ''-''
     @ setw 3 CHR ''0'' (show_int (c_div (tv_usec tv) 1000))
     @ ''.bin''"

text \<open>The ranges POSIX gives the fields of a broken-down time and of a \<open>timeval\<close>.\<close>

definition valid_tm :: "tm \<Rightarrow> bool" where
  "valid_tm t \<longleftrightarrow>
     0 \<le> tm_sec t \<and> tm_sec t \<le> 60 \<and> 0 \<le> tm_min t \<and> tm_min t \<le> 59 \<and>
     0 \<le> tm_hour t \<and> tm_hour t \<le> 23 \<and> 1 \<le> tm_mday t \<and> tm_mday t \<le> 31 \<and>
     0 \<le> tm_mon t \<and> tm_mon t \<le> 11"

definition valid_timeval :: "timeval \<Rightarrow> bool" where
  "valid_timeval tv \<longleftrightarrow> 0 \<le> tv_usec tv \<and> tv_usec tv < 1000000"

subsection \<open>The command line\<close>

record 'd config =
  output_dir :: string
  exposure_seconds :: 'd
  gain_value :: int
  interval_seconds :: 'd

text \<open>
  The library functions and floating-point computations the program relies on:
  \<open>stod\<close> and \<open>stoi\<close> (\<open>None\<close> when they throw \<open>invalid_argument\<close> or \<open>out_of_range\<close>),
  the literals \<open>1.0\<close> and \<open>1.5\<close>, the text \<open>operator<<\<close> prints for a double, the value
  of \<open>(long)(x * 1e6)\<close>, and whether \<open>waited < interval\<close> holds once \<open>0.1\<close> has been
  added \<open>k\<close> times to \<open>0.0\<close>.
\<close>

record 'd library =
  stod :: "string \<Rightarrow> 'd option"
  stoi :: "string \<Rightarrow> int option"
  lit_1_0 :: 'd
  lit_1_5 :: 'd
  show_double :: "'d \<Rightarrow> string"
  to_micros :: "'d \<Rightarrow> int"
  waited_lt :: "nat \<Rightarrow> 'd \<Rightarrow> bool"

datatype failure = Uncaught_exception

definition defaults :: "'d library \<Rightarrow> 'd config" where
  "defaults lib = \<lparr> output_dir = ''.'', exposure_seconds = lit_1_0 lib,
                    gain_value = 100, interval_seconds = lit_1_5 lib \<rparr>"

text \<open>
  The scan \<open>for (i = 1; i < argc; ++i)\<close> over the arguments from position \<open>i\<close> on. A
  flag takes the next argument as its value (\<open>argv[++i]\<close>) only when there is one
  (\<open>i + 1 < argc\<close>); anything else is stepped over. A value \<open>stod\<close> or \<open>stoi\<close> rejects
  throws, and nothing catches it.
\<close>

fun parse_from :: "'d library \<Rightarrow> 'd config \<Rightarrow> string list \<Rightarrow> failure + 'd config" where
  "parse_from lib c [] = Inr c"
| "parse_from lib c [a] = Inr c"
| "parse_from lib c (a # v # rest) =
     (if a = ''--output-dir'' then parse_from lib (c\<lparr>output_dir := v\<rparr>) rest
      else if a = ''--exposure-time'' then
        (case stod lib v of
           None \<Rightarrow> Inl Uncaught_exception
         | Some x \<Rightarrow> parse_from lib (c\<lparr>exposure_seconds := x\<rparr>) rest)
      else if a = ''--gain'' then
        (case stoi lib v of
           None \<Rightarrow> Inl Uncaught_exception
         | Some g \<Rightarrow> parse_from lib (c\<lparr>gain_value := g\<rparr>) rest)
      else if a = ''--interval'' then
        (case stod lib v of
           None \<Rightarrow> Inl Uncaught_exception
         | Some x \<Rightarrow> parse_from lib (c\<lparr>interval_seconds := x\<rparr>) rest)
      else parse_from lib c (v # rest))"

text \<open>\<open>argv[0]\<close> is the program's name and is not scanned.\<close>

definition parse_args :: "'d library \<Rightarrow> string list \<Rightarrow> failure + 'd config" where
  "parse_args lib argv = parse_from lib (defaults lib) (tl argv)"


subsection \<open>The SDK, the world and the events of a run\<close>

text \<open>
  The SDK's header is not part of the repository; these are the values of its types the
  program distinguishes. Every error code other than \<open>ASI_SUCCESS\<close> is treated alike.
\<close>

datatype ASI_ERROR_CODE = ASI_SUCCESS | ASI_ERROR nat

datatype ASI_EXPOSURE_STATUS = ASI_EXP_IDLE | ASI_EXP_WORKING | ASI_EXP_SUCCESS | ASI_EXP_FAILED

datatype ASI_IMG_TYPE = ASI_IMG_RAW8 | ASI_IMG_RAW16

datatype ASI_CONTROL_TYPE = ASI_GAIN | ASI_EXPOSURE

record ASI_CAMERA_INFO =
  CameraID :: int
  MaxHeight :: int
  MaxWidth :: int
  BitDepth :: int

datatype signum = SIGINT | SIGTERM

text \<open>
  What the program does to its world, in order. A line sent to \<open>cout\<close> or \<open>cerr\<close> is
  recorded without its \<open>endl\<close>.
\<close>

datatype event =
    Stdout string
  | Stderr string
  | Signal signum
  | GetNumOfConnectedCameras
  | GetCameraProperty int
  | OpenCamera int
  | InitCamera int
  | SetROIFormat int int int int ASI_IMG_TYPE
  | SetControlValue int ASI_CONTROL_TYPE int bool
  | StartExposure int bool
  | GetExpStatus int
  | Sleep_ms nat
  | GetDataAfterExp int int
  | GetTimeOfDay
  | FileOpen string
  | FileWrite string nat
  | FileClose string
  | CloseCamera int

text \<open>
  The answers of the world. Those that can change during a run are functions of the tick
  at which the program asks. \<open>signal_at w t\<close> says that SIGINT or SIGTERM is delivered
  during tick \<open>t\<close>, counted from the installation of the handler. \<open>alloc_ok w n\<close> says
  that a vector of \<open>n\<close> bytes can be allocated. \<open>exp_status_at w t\<close> is the value of
  the variable \<open>exp_status\<close> after the call of \<open>ASIGetExpStatus\<close> made at tick \<open>t\<close>; the
  program ignores what the call returns. \<open>localtime\<close> is assumed to return a broken-down
  time for every \<open>tv_sec\<close>. The fields of \<open>camera_info\<close> are the values the program
  keeps in its \<open>int\<close> variables, taken as mathematical integers: the product of two
  sensor dimensions and a pixel width of 1 or 2 does not overflow a \<open>long\<close>.
\<close>

record world =
  signal_at :: "nat \<Rightarrow> bool"
  connected_cameras :: int
  property_code :: ASI_ERROR_CODE
  camera_info :: ASI_CAMERA_INFO
  open_code :: ASI_ERROR_CODE
  init_code :: ASI_ERROR_CODE
  alloc_ok :: "nat \<Rightarrow> bool"
  start_code :: "nat \<Rightarrow> ASI_ERROR_CODE"
  exp_status_at :: "nat \<Rightarrow> ASI_EXPOSURE_STATUS"
  data_code :: "nat \<Rightarrow> ASI_ERROR_CODE"
  gettimeofday :: "nat \<Rightarrow> timeval"
  localtime :: "int \<Rightarrow> tm"
  file_ok :: "nat \<Rightarrow> bool"

record state =
  tick :: nat
  keep_running :: bool
  trace :: "event list"

datatype outcome = Exit int | Terminate

datatype ctl = Continue | Break

definition emit :: "event \<Rightarrow> state \<Rightarrow> state" where
  "emit e st = st\<lparr>trace := trace st @ [e]\<rparr>"

text \<open>
  One tick passes. The handler \<open>signal_handler\<close> only ever stores 0 in \<open>keep_running\<close>,
  so a signal delivered during the tick clears the flag and nothing sets it again.
\<close>

definition advance :: "world \<Rightarrow> state \<Rightarrow> state" where
  "advance w st =
     st\<lparr>tick := Suc (tick st), keep_running := (keep_running st \<and> \<not> signal_at w (tick st))\<rparr>"

text \<open>
  A call into the world (the SDK, \<open>sleep_for\<close>, the clock, a file) is an event and takes
  a tick. Reading \<open>keep_running\<close> takes a tick too, without an event: it is written
  \<open>advance\<close> followed by the test of the flag, so that a signal can arrive between any
  two reads.
\<close>

definition call :: "world \<Rightarrow> event \<Rightarrow> state \<Rightarrow> state" where
  "call w e st = advance w (emit e st)"

subsection \<open>The capture loop\<close>

text \<open>
  \<open>do { ASIGetExpStatus; sleep 10 ms } while (exp_status == ASI_EXP_WORKING && keep_running)\<close>.
  The flag is read only when the status is \<open>ASI_EXP_WORKING\<close>. The loop need not end:
  the first argument is fuel, one unit for each round.
\<close>

fun poll_exposure :: "nat \<Rightarrow> world \<Rightarrow> int \<Rightarrow> state \<Rightarrow> (ASI_EXPOSURE_STATUS \<times> state) option" where
  "poll_exposure 0 w cid st = None"
| "poll_exposure (Suc n) w cid st =
     (let exp_status = exp_status_at w (tick st);
          st1 = call w (Sleep_ms 10) (call w (GetExpStatus cid) st)
      in if exp_status = ASI_EXP_WORKING then
           (let st2 = advance w st1
            in if keep_running st2 then poll_exposure n w cid st2 else Some (exp_status, st2))
         else Some (exp_status, st1))"

text \<open>
  \<open>while (waited < interval_seconds && keep_running) { sleep 100 ms; waited += 0.1; }\<close>
  with \<open>k\<close> the number of additions made so far.
\<close>

fun pace :: "nat \<Rightarrow> 'd library \<Rightarrow> world \<Rightarrow> 'd \<Rightarrow> nat \<Rightarrow> state \<Rightarrow> state option" where
  "pace 0 lib w iv k st = None"
| "pace (Suc n) lib w iv k st =
     (if waited_lt lib k iv then
        (let st1 = advance w st
         in if keep_running st1 then pace n lib w iv (Suc k) (call w (Sleep_ms 100) st1)
            else Some st1)
      else Some st)"

text \<open>
  What follows a successful fetch: the name, the file, the pacing. \<open>nbytes\<close> is
  \<open>asi_image.size()\<close>.
\<close>

definition save_frame ::
  "nat \<Rightarrow> 'd library \<Rightarrow> world \<Rightarrow> 'd config \<Rightarrow> nat \<Rightarrow> state \<Rightarrow> (ctl \<times> state) option" where
  "save_frame n lib w cfg nbytes st =
     (let tv = gettimeofday w (tick st);
          st1 = call w GetTimeOfDay st;
          filename = make_filename (localtime w (tv_sec tv)) tv;
          fullpath = output_dir cfg @ ''/'' @ filename;
          ok = file_ok w (tick st1);
          st2 = call w (FileOpen fullpath) st1
      in if \<not> ok then
           Some (Continue, emit (Stderr (''Error opening file for writing: '' @ fullpath)) st2)
         else
           (let st3 = call w (FileWrite fullpath nbytes) st2;
                st4 = call w (FileClose fullpath) st3;
                st5 = emit (Stdout ([CHR 0xE2, CHR 0x9C, CHR 0x93] @ '' Saved '' @ fullpath)) st4
            in map_option (Pair Continue) (pace n lib w (interval_seconds cfg) 0 st5)))"

text \<open>
  The body of \<open>while (keep_running)\<close>: how it leaves (\<open>break\<close>, or the end of the body or
  \<open>continue\<close>) and the state it leaves.
\<close>

definition capture_once ::
  "nat \<Rightarrow> 'd library \<Rightarrow> world \<Rightarrow> 'd config \<Rightarrow> int \<Rightarrow> int \<Rightarrow> state \<Rightarrow> (ctl \<times> state) option" where
  "capture_once n lib w cfg cid image_size st =
     (let started = start_code w (tick st);
          st1 = call w (StartExposure cid False) st
      in if started \<noteq> ASI_SUCCESS then Some (Break, emit (Stderr ''Error starting exposure'') st1)
         else
           (case poll_exposure n w cid st1 of
              None \<Rightarrow> None
            | Some (exp_status, st2) \<Rightarrow>
                (let st3 = advance w st2
                 in if \<not> keep_running st3 then Some (Break, st3)
                    else if exp_status \<noteq> ASI_EXP_SUCCESS then
                      Some (Continue, emit (Stderr ''Exposure failed, skipping frame'') st3)
                    else
                      (let fetched = data_code w (tick st3);
                           st4 = call w (GetDataAfterExp cid image_size) st3
                       in if fetched \<noteq> ASI_SUCCESS then
                            Some (Continue, emit (Stderr ''Error retrieving image data'') st4)
                          else save_frame n lib w cfg (nat image_size) st4))))"

fun capture_loop ::
  "nat \<Rightarrow> 'd library \<Rightarrow> world \<Rightarrow> 'd config \<Rightarrow> int \<Rightarrow> int \<Rightarrow> state \<Rightarrow> state option" where
  "capture_loop 0 lib w cfg cid image_size st = None"
| "capture_loop (Suc n) lib w cfg cid image_size st =
     (let st1 = advance w st
      in if \<not> keep_running st1 then Some st1
         else
           (case capture_once n lib w cfg cid image_size st1 of
              None \<Rightarrow> None
            | Some (Break, st2) \<Rightarrow> Some st2
            | Some (Continue, st2) \<Rightarrow> capture_loop n lib w cfg cid image_size st2))"

subsection \<open>\<open>main\<close>\<close>

definition banner :: "'d library \<Rightarrow> 'd config \<Rightarrow> event list" where
  "banner lib cfg =
     [Stdout ''Starting continuous ZWO ASICamera capture...'',
      Stdout (''Output directory: '' @ output_dir cfg),
      Stdout (''Exposure time: '' @ show_double lib (exposure_seconds cfg) @ '' s''),
      Stdout (''Gain: '' @ show_int (gain_value cfg)),
      Stdout (''Interval: '' @ show_double lib (interval_seconds cfg) @ '' s'')]"

definition initial_state :: "'d library \<Rightarrow> 'd config \<Rightarrow> state" where
  "initial_state lib cfg =
     \<lparr> tick = 0, keep_running = True, trace = [Signal SIGINT, Signal SIGTERM] @ banner lib cfg \<rparr>"

text \<open>After the loop: the device is closed.\<close>

definition shutdown :: "world \<Rightarrow> int \<Rightarrow> state \<Rightarrow> state" where
  "shutdown w cid st =
     emit (Stdout ''Camera closed. Exiting.'')
       (call w (CloseCamera cid) (emit (Stdout (CHR 0x0A # ''Stopping capture...'')) st))"

text \<open>
  The loop entered in the state \<open>st\<close>, and the lines after it: once the loop is left,
  by its condition or by \<open>break\<close>, the device is closed and the process exits with 0.
\<close>

definition capture_and_exit ::
  "nat \<Rightarrow> 'd library \<Rightarrow> world \<Rightarrow> 'd config \<Rightarrow> int \<Rightarrow> int \<Rightarrow> state
     \<Rightarrow> (outcome \<times> event list) option" where
  "capture_and_exit fuel lib w cfg cid image_size st =
     (case capture_loop fuel lib w cfg cid image_size st of
        None \<Rightarrow> None
      | Some st' \<Rightarrow> Some (Exit 0, trace (shutdown w cid st')))"

text \<open>
  From the opened and initialised camera to the end of \<open>main\<close>. The vector of
  \<open>image_size\<close> bytes is built after the three settings: a negative \<open>long\<close> becomes a
  size beyond \<open>max_size()\<close> and the constructor throws, as it does when the allocation
  fails; nothing catches it.
\<close>

definition run_camera ::
  "nat \<Rightarrow> 'd library \<Rightarrow> world \<Rightarrow> 'd config \<Rightarrow> state \<Rightarrow> (outcome \<times> event list) option" where
  "run_camera fuel lib w cfg st =
     (let info = camera_info w;
          width = MaxWidth info;
          height = MaxHeight info;
          bytes_per_pixel = (if BitDepth info > 8 then 2 else 1);
          image_size = width * height * bytes_per_pixel;
          img_type = (if BitDepth info > 8 then ASI_IMG_RAW16 else ASI_IMG_RAW8);
          st1 = call w (SetROIFormat (CameraID info) width height 1 img_type) st;
          st2 = call w (SetControlValue (CameraID info) ASI_EXPOSURE
                          (to_micros lib (exposure_seconds cfg)) False) st1;
          st3 = call w (SetControlValue (CameraID info) ASI_GAIN (gain_value cfg) False) st2
      in if image_size < 0 \<or> \<not> alloc_ok w (nat image_size) then Some (Terminate, trace st3)
         else
           capture_and_exit fuel lib w cfg (CameraID info) image_size
             (emit (Stdout ''Camera initialized. Beginning capture loop...'') st3))"

text \<open>
  \<open>main\<close>, given the arguments \<open>argv\<close>. The result is \<open>None\<close> when the fuel does not
  reach the end of the run; otherwise it is the way the process ends and what it did.
  \<open>ASIInitCamera\<close> is called only when \<open>ASIOpenCamera\<close> succeeded.
\<close>

definition main ::
  "nat \<Rightarrow> 'd library \<Rightarrow> world \<Rightarrow> string list \<Rightarrow> (outcome \<times> event list) option" where
  "main fuel lib w argv =
     (case parse_args lib argv of
        Inl e \<Rightarrow> Some (Terminate, [])
      | Inr cfg \<Rightarrow>
          (let st1 = call w GetNumOfConnectedCameras (initial_state lib cfg)
           in if connected_cameras w < 1 then
                Some (Exit 1, trace (emit (Stderr ''No cameras connected!'') st1))
              else
                (let st2 = call w (GetCameraProperty 0) st1
                 in if property_code w \<noteq> ASI_SUCCESS then
                      Some (Exit 1, trace (emit (Stderr ''Error retrieving camera properties!'') st2))
                    else
                      (let cid = CameraID (camera_info w);
                           st3 = call w (OpenCamera cid) st2
                       in if open_code w \<noteq> ASI_SUCCESS then
                            Some (Exit 1, trace (emit (Stderr ''Error initializing camera'') st3))
                          else
                            (let st4 = call w (InitCamera cid) st3
                             in if init_code w \<noteq> ASI_SUCCESS then
                                  Some (Exit 1, trace (emit (Stderr ''Error initializing camera'') st4))
                                else run_camera fuel lib w cfg st4)))))"


subsection \<open>The exposure time in microseconds\<close>

text \<open>
  The third argument of the call that sets the exposure,
  \<open>(long)(exposure_seconds * 1e6)\<close>, with a finite double taken as the real number it
  denotes. The product of two doubles is the rounding \<open>rnd\<close> of their exact product. The
  conversion to \<open>long\<close> drops the fraction, toward zero; when the result is not a value
  of a 64-bit \<open>long\<close> the behaviour of the conversion is undefined, and there is no value
  (\<open>None\<close>).
\<close>

definition long_range :: "int \<Rightarrow> bool" where
  "long_range v \<longleftrightarrow> - (2 ^ 63) \<le> v \<and> v < 2 ^ 63"

definition c_truncate :: "real \<Rightarrow> int" where
  "c_truncate p = (if 0 \<le> p then \<lfloor>p\<rfloor> else \<lceil>p\<rceil>)"

definition exposure_micros :: "(real \<Rightarrow> real) \<Rightarrow> real \<Rightarrow> int option" where
  "exposure_micros rnd x =
     (let p = rnd (x * 1000000)
      in if long_range (c_truncate p) then Some (c_truncate p) else None)"

text \<open>
  What is used of the rounding of doubles: it keeps the order, and it leaves alone the
  integers up to \<open>2\<^sup>5\<^sup>3\<close>, which are doubles. \<open>exact\<close> is the rounding of a product that
  is itself a double.
\<close>

definition double_rounding :: "(real \<Rightarrow> real) \<Rightarrow> bool" where
  "double_rounding rnd \<longleftrightarrow>
     (\<forall>a b. a \<le> b \<longrightarrow> rnd a \<le> rnd b) \<and>
     (\<forall>k::int. \<bar>k\<bar> \<le> 2 ^ 53 \<longrightarrow> rnd (of_int k) = of_int k)"

definition exact :: "real \<Rightarrow> real" where
  "exact y = y"

subsection \<open>The file name the specification describes\<close>

text \<open>
  The specification's form \<open>exposure-YYYYMMDD-HHMMSS-mmm.bin\<close>: fields of a fixed
  number of decimal digits, the leading ones 0 when the number is small.
\<close>

definition two_digits :: "nat \<Rightarrow> string" where
  "two_digits n = [digit_char (n div 10 mod 10), digit_char (n mod 10)]"

definition three_digits :: "nat \<Rightarrow> string" where
  "three_digits n =
     [digit_char (n div 100 mod 10), digit_char (n div 10 mod 10), digit_char (n mod 10)]"

definition four_digits :: "nat \<Rightarrow> string" where
  "four_digits n =
     [digit_char (n div 1000 mod 10), digit_char (n div 100 mod 10),
      digit_char (n div 10 mod 10), digit_char (n mod 10)]"

definition spec_filename :: "int \<Rightarrow> int \<Rightarrow> int \<Rightarrow> int \<Rightarrow> int \<Rightarrow> int \<Rightarrow> int \<Rightarrow> string" where
  "spec_filename Y M D h m s ms =
     ''exposure-'' @ four_digits (nat Y) @ two_digits (nat M) @ two_digits (nat D) @ ''-''
     @ two_digits (nat h) @ two_digits (nat m) @ two_digits (nat s) @ ''-''
     @ three_digits (nat ms) @ ''.bin''"

subsection \<open>The command line the specification describes\<close>

text \<open>
  A command line read as a sequence of items: a recognised flag together with the
  argument after it, or a single argument that is not a recognised flag. \<open>render\<close>
  gives the arguments of such a sequence, \<open>values_of f\<close> the values given to the flag
  \<open>f\<close>, in order, and \<open>last_wins\<close> the configuration in which every flag has the value
  of its last occurrence and a flag that does not occur keeps the value it had.
\<close>

datatype arg_item = Opt string string | Other string

definition recognised :: "string \<Rightarrow> bool" where
  "recognised a \<longleftrightarrow> a \<in> {''--output-dir'', ''--exposure-time'', ''--gain'', ''--interval''}"

fun item_ok :: "arg_item \<Rightarrow> bool" where
  "item_ok (Opt f v) = recognised f"
| "item_ok (Other a) = (\<not> recognised a)"

fun render :: "arg_item list \<Rightarrow> string list" where
  "render [] = []"
| "render (Opt f v # r) = f # v # render r"
| "render (Other a # r) = a # render r"

fun values_of :: "string \<Rightarrow> arg_item list \<Rightarrow> string list" where
  "values_of f [] = []"
| "values_of f (Opt g v # r) = (if g = f then v # values_of f r else values_of f r)"
| "values_of f (Other a # r) = values_of f r"

definition last_or :: "'a \<Rightarrow> 'a list \<Rightarrow> 'a" where
  "last_or d vs = (if vs = [] then d else last vs)"

definition last_wins :: "'d library \<Rightarrow> 'd config \<Rightarrow> arg_item list \<Rightarrow> 'd config" where
  "last_wins lib c items =
     \<lparr> output_dir = last_or (output_dir c) (values_of ''--output-dir'' items),
       exposure_seconds =
         last_or (exposure_seconds c) (map (the \<circ> stod lib) (values_of ''--exposure-time'' items)),
       gain_value = last_or (gain_value c) (map (the \<circ> stoi lib) (values_of ''--gain'' items)),
       interval_seconds =
         last_or (interval_seconds c) (map (the \<circ> stod lib) (values_of ''--interval'' items)) \<rparr>"

text \<open>Every value given to a numeric flag is one \<open>stod\<close> or \<open>stoi\<close> accepts.\<close>

definition values_parse :: "'d library \<Rightarrow> arg_item list \<Rightarrow> bool" where
  "values_parse lib items \<longleftrightarrow>
     list_all (\<lambda>v. stod lib v \<noteq> None) (values_of ''--exposure-time'' items) \<and>
     list_all (\<lambda>v. stoi lib v \<noteq> None) (values_of ''--gain'' items) \<and>
     list_all (\<lambda>v. stod lib v \<noteq> None) (values_of ''--interval'' items)"

subsection \<open>Notions used to state and prove the properties\<close>

text \<open>
  \<open>follows w st st'\<close>: the state \<open>st'\<close> is reached from \<open>st\<close> by steps of the program
  in the world \<open>w\<close>, so that the flag is still set in \<open>st'\<close> exactly when it was set in
  \<open>st\<close> and no signal was delivered in between. \<open>shutdown_pending w T st\<close>: a signal is
  delivered during tick \<open>T\<close>, and \<open>st\<close> is before it or already has the flag cleared.
\<close>

definition follows :: "world \<Rightarrow> state \<Rightarrow> state \<Rightarrow> bool" where
  "follows w st st' \<longleftrightarrow>
     tick st \<le> tick st' \<and>
     (keep_running st' \<longleftrightarrow>
        keep_running st \<and> (\<forall>t. tick st \<le> t \<and> t < tick st' \<longrightarrow> \<not> signal_at w t))"

definition shutdown_pending :: "world \<Rightarrow> nat \<Rightarrow> state \<Rightarrow> bool" where
  "shutdown_pending w T st \<longleftrightarrow> signal_at w T \<and> (tick st \<le> T \<or> \<not> keep_running st)"

text \<open>
  The file operations of a trace, and the lines sent to \<open>cerr\<close>. \<open>complete_writes sz tr\<close>
  holds when the file events of \<open>tr\<close> come in two shapes only, each made of adjacent
  events on one path: the file is opened, \<open>sz\<close> bytes are written to it and it is closed;
  or the file is opened and the failure to open it is reported at once. So every write
  is whole, and no file is opened and then left without its write.
\<close>

datatype file_op =
  Opened string | Written string nat | Closed string | Complained string | Elsewhere

fun file_op_of :: "event \<Rightarrow> file_op" where
  "file_op_of (FileOpen p) = Opened p"
| "file_op_of (FileWrite p n) = Written p n"
| "file_op_of (FileClose p) = Closed p"
| "file_op_of (Stderr s) = Complained s"
| "file_op_of e = Elsewhere"

fun whole_writes :: "nat \<Rightarrow> file_op list \<Rightarrow> bool" where
  "whole_writes sz (Opened p # Written q n # Closed r # es) =
     (q = p \<and> r = p \<and> n = sz \<and> whole_writes sz es)"
| "whole_writes sz (Opened p # Complained s # es) =
     (s = ''Error opening file for writing: '' @ p \<and> whole_writes sz es)"
| "whole_writes sz (Opened p # es) = False"
| "whole_writes sz (Written q n # es) = False"
| "whole_writes sz (Closed r # es) = False"
| "whole_writes sz (e # es) = whole_writes sz es"
| "whole_writes sz [] = True"

text \<open>An event that is no file operation.\<close>

fun no_file_op :: "file_op \<Rightarrow> bool" where
  "no_file_op (Complained s) = True"
| "no_file_op Elsewhere = True"
| "no_file_op e = False"

definition no_file_event :: "event \<Rightarrow> bool" where
  "no_file_event e = no_file_op (file_op_of e)"

definition complete_writes :: "nat \<Rightarrow> event list \<Rightarrow> bool" where
  "complete_writes sz tr = whole_writes sz (map file_op_of tr)"

text \<open>
  Names for the intermediate values of \<open>save_frame\<close>: the path it builds, the line it
  prints, the state once the file is open and the state once the frame is saved.
\<close>

definition frame_path :: "world \<Rightarrow> 'd config \<Rightarrow> state \<Rightarrow> string" where
  "frame_path w cfg st =
     output_dir cfg @ ''/'' @
       make_filename (localtime w (tv_sec (gettimeofday w (tick st)))) (gettimeofday w (tick st))"

definition saved_announcement :: "string \<Rightarrow> event" where
  "saved_announcement path = Stdout ([CHR 0xE2, CHR 0x9C, CHR 0x93] @ '' Saved '' @ path)"

definition opened_state :: "world \<Rightarrow> 'd config \<Rightarrow> state \<Rightarrow> state" where
  "opened_state w cfg st = call w (FileOpen (frame_path w cfg st)) (call w GetTimeOfDay st)"

definition saved_state :: "world \<Rightarrow> 'd config \<Rightarrow> nat \<Rightarrow> state \<Rightarrow> state" where
  "saved_state w cfg nbytes st =
     emit (saved_announcement (frame_path w cfg st))
       (call w (FileClose (frame_path w cfg st))
          (call w (FileWrite (frame_path w cfg st) nbytes) (opened_state w cfg st)))"

text \<open>
  The part of the loop body after the polling loop, from the test \<open>if (!keep_running) break\<close>
  on, given the status and the state the polling loop left.
\<close>

definition after_poll ::
  "nat \<Rightarrow> 'd library \<Rightarrow> world \<Rightarrow> 'd config \<Rightarrow> int \<Rightarrow> int \<Rightarrow> ASI_EXPOSURE_STATUS \<Rightarrow> state
     \<Rightarrow> (ctl \<times> state) option" where
  "after_poll n lib w cfg cid image_size exp_status st2 =
     (if \<not> keep_running (advance w st2) then Some (Break, advance w st2)
      else if exp_status \<noteq> ASI_EXP_SUCCESS then
        Some (Continue, emit (Stderr ''Exposure failed, skipping frame'') (advance w st2))
      else if data_code w (Suc (tick st2)) \<noteq> ASI_SUCCESS then
        Some (Continue, emit (Stderr ''Error retrieving image data'')
                (call w (GetDataAfterExp cid image_size) (advance w st2)))
      else save_frame n lib w cfg (nat image_size)
             (call w (GetDataAfterExp cid image_size) (advance w st2)))"

text \<open>
  The specification's size of a frame, \<open>width \<times> height \<times> bytes_per_pixel\<close>; a world in
  which the start-up succeeds; the three settings sent to the camera; the state in which
  the loop is entered.
\<close>

definition frame_bytes :: "ASI_CAMERA_INFO \<Rightarrow> int" where
  "frame_bytes info = MaxWidth info * MaxHeight info * (if BitDepth info > 8 then 2 else 1)"

definition startup_ok :: "world \<Rightarrow> bool" where
  "startup_ok w \<longleftrightarrow>
     1 \<le> connected_cameras w \<and> property_code w = ASI_SUCCESS \<and> open_code w = ASI_SUCCESS \<and>
     init_code w = ASI_SUCCESS \<and> 0 \<le> frame_bytes (camera_info w) \<and>
     alloc_ok w (nat (frame_bytes (camera_info w)))"

definition settings :: "'d library \<Rightarrow> world \<Rightarrow> 'd config \<Rightarrow> event list" where
  "settings lib w cfg =
     [SetROIFormat (CameraID (camera_info w)) (MaxWidth (camera_info w)) (MaxHeight (camera_info w)) 1
        (if BitDepth (camera_info w) > 8 then ASI_IMG_RAW16 else ASI_IMG_RAW8),
      SetControlValue (CameraID (camera_info w)) ASI_EXPOSURE (to_micros lib (exposure_seconds cfg)) False,
      SetControlValue (CameraID (camera_info w)) ASI_GAIN (gain_value cfg) False]"

definition calls :: "world \<Rightarrow> event list \<Rightarrow> state \<Rightarrow> state" where
  "calls w evs st = fold (call w) evs st"

definition camera_ready :: "'d library \<Rightarrow> world \<Rightarrow> 'd config \<Rightarrow> state" where
  "camera_ready lib w cfg =
     emit (Stdout ''Camera initialized. Beginning capture loop...'')
       (calls w ([GetNumOfConnectedCameras, GetCameraProperty 0,
                  OpenCamera (CameraID (camera_info w)), InitCamera (CameraID (camera_info w))]
                 @ settings lib w cfg)
          (initial_state lib cfg))"

text \<open>
  A trace is paced when every exposure that is started, except the first, comes after a
  100 ms slice of the pacing wait that followed the previous start.
\<close>

fun paced_from :: "bool \<Rightarrow> event list \<Rightarrow> bool" where
  "paced_from waited [] = True"
| "paced_from waited (StartExposure cid dark # es) = (waited \<and> paced_from False es)"
| "paced_from waited (Sleep_ms ms # es) = paced_from (waited \<or> ms = 100) es"
| "paced_from waited (e # es) = paced_from waited es"

definition paced :: "event list \<Rightarrow> bool" where
  "paced tr = paced_from True tr"

text \<open>What an iteration returns, with the trace of its state in place of the state.\<close>

definition iteration_trace :: "(ctl \<times> state) option \<Rightarrow> (ctl \<times> event list) option" where
  "iteration_trace r = map_option (\<lambda>(c, st). (c, trace st)) r"

subsection \<open>A library and worlds to run the program on\<close>

text \<open>
  A small stand-in for the library, with a double represented by its number of tenths:
  it reads the few texts used below, and \<open>waited < interval\<close> holds while fewer tenths
  have been added than the interval has.
\<close>

definition sample_library :: "int library" where
  "sample_library =
     \<lparr> stod = (\<lambda>s. if s = ''0.2'' then Some 2 else if s = ''2.5'' then Some 25 else None),
       stoi = (\<lambda>s. if s = ''7'' then Some 7 else if s = ''300'' then Some 300 else None),
       lit_1_0 = 10,
       lit_1_5 = 15,
       show_double =
         (\<lambda>x. if x mod 10 = 0 then show_int (x div 10)
              else show_int (x div 10) @ ''.'' @ show_int (x mod 10)),
       to_micros = (\<lambda>x. x * 100000),
       waited_lt = (\<lambda>k x. int k < x) \<rparr>"

text \<open>
  A world with one camera of 4 by 3 pixels at 12 bits, in which every call succeeds, the
  exposure is over from tick 12 on, and a signal arrives during tick 40; and variants of
  it in which one thing goes wrong.
\<close>

definition sample_world :: world where
  "sample_world =
     \<lparr> signal_at = (\<lambda>t. t = 40),
       connected_cameras = 1,
       property_code = ASI_SUCCESS,
       camera_info = \<lparr> CameraID = 0, MaxHeight = 3, MaxWidth = 4, BitDepth = 12 \<rparr>,
       open_code = ASI_SUCCESS,
       init_code = ASI_SUCCESS,
       alloc_ok = (\<lambda>n. True),
       start_code = (\<lambda>t. ASI_SUCCESS),
       exp_status_at = (\<lambda>t. if t < 12 then ASI_EXP_WORKING else ASI_EXP_SUCCESS),
       data_code = (\<lambda>t. ASI_SUCCESS),
       gettimeofday = (\<lambda>t. \<lparr> tv_sec = 1793624825, tv_usec = 45999 + 1000 * int t \<rparr>),
       localtime = (\<lambda>s. \<lparr> tm_sec = 5, tm_min = 7, tm_hour = 13, tm_mday = 2, tm_mon = 10, tm_year = 126 \<rparr>),
       file_ok = (\<lambda>t. True) \<rparr>"

definition sample_argv :: "string list" where
  "sample_argv = [''capture'', ''--interval'', ''0.2'']"

definition sample_config :: "int config" where
  "sample_config = (defaults sample_library)\<lparr>interval_seconds := 2\<rparr>"

definition no_camera_world :: world where
  "no_camera_world = sample_world\<lparr>connected_cameras := 0\<rparr>"

definition no_property_world :: world where
  "no_property_world = sample_world\<lparr>property_code := ASI_ERROR 1\<rparr>"

definition no_open_world :: world where
  "no_open_world = sample_world\<lparr>open_code := ASI_ERROR 1\<rparr>"

definition init_failure_world :: world where
  "init_failure_world = sample_world\<lparr>init_code := ASI_ERROR 1\<rparr>"

definition no_trigger_world :: world where
  "no_trigger_world = sample_world\<lparr>start_code := (\<lambda>t. ASI_ERROR 1)\<rparr>"

definition late_signal_world :: world where
  "late_signal_world = sample_world\<lparr>signal_at := (\<lambda>t. t = 9), exp_status_at := (\<lambda>t. ASI_EXP_SUCCESS)\<rparr>"

definition slow_exposure_world :: world where
  "slow_exposure_world =
     sample_world\<lparr>signal_at := (\<lambda>t. t = 13), exp_status_at := (\<lambda>t. ASI_EXP_WORKING)\<rparr>"

definition failed_exposure_world :: world where
  "failed_exposure_world =
     sample_world\<lparr>signal_at := (\<lambda>t. t = 14),
       exp_status_at := (\<lambda>t. if t < 12 then ASI_EXP_FAILED else ASI_EXP_SUCCESS)\<rparr>"

definition steady_world :: world where
  "steady_world = sample_world\<lparr>exp_status_at := (\<lambda>t. ASI_EXP_SUCCESS)\<rparr>"

definition no_fetch_world :: world where
  "no_fetch_world = steady_world\<lparr>data_code := (\<lambda>t. ASI_ERROR 1)\<rparr>"

definition no_file_world :: world where
  "no_file_world = steady_world\<lparr>file_ok := (\<lambda>t. False)\<rparr>"

definition failing_exposure_world :: world where
  "failing_exposure_world = sample_world\<lparr>exp_status_at := (\<lambda>t. ASI_EXP_FAILED)\<rparr>"

text \<open>
  States of the loop in these worlds: at the head of the loop, after one round of
  polling, with and without a signal, after the frame is fetched, and after the frame is
  saved or the file refused. Then the traces of two whole runs.
\<close>

definition loop_entry :: state where
  "loop_entry = \<lparr> tick = 7, keep_running = True, trace = [] \<rparr>"

definition polled_state :: state where
  "polled_state = \<lparr> tick = 10, keep_running = False, trace = [StartExposure 0 False, GetExpStatus 0, Sleep_ms 10] \<rparr>"

definition exposed_state :: state where
  "exposed_state =
     \<lparr> tick = 10, keep_running = True,
       trace = [StartExposure 0 False, GetExpStatus 0, Sleep_ms 10] \<rparr>"

definition fetched_state :: state where
  "fetched_state =
     \<lparr> tick = 12, keep_running = True,
       trace = [StartExposure 0 False, GetExpStatus 0, Sleep_ms 10, GetDataAfterExp 0 24] \<rparr>"

definition kept_state :: state where
  "kept_state =
     \<lparr> tick = 20, keep_running = True,
       trace = [StartExposure 0 False, GetExpStatus 0, Sleep_ms 10, GetDataAfterExp 0 24,
         GetTimeOfDay, FileOpen ''./exposure-20261102-130705-057.bin'',
         FileWrite ''./exposure-20261102-130705-057.bin'' 24,
         FileClose ''./exposure-20261102-130705-057.bin'',
         saved_announcement ''./exposure-20261102-130705-057.bin'',
         Sleep_ms 100, Sleep_ms 100] \<rparr>"

definition refused_state :: state where
  "refused_state =
     \<lparr> tick = 14, keep_running = True,
       trace = [StartExposure 0 False, GetExpStatus 0, Sleep_ms 10, GetDataAfterExp 0 24,
         GetTimeOfDay, FileOpen ''./exposure-20261102-130705-057.bin'',
         Stderr ''Error opening file for writing: ./exposure-20261102-130705-057.bin''] \<rparr>"

definition run_trace :: "event list" where
  "run_trace =
   [Signal SIGINT, Signal SIGTERM,
    Stdout ''Starting continuous ZWO ASICamera capture...'',
    Stdout ''Output directory: .'', Stdout ''Exposure time: 1 s'',
    Stdout ''Gain: 100'', Stdout ''Interval: 0.2 s'',
    GetNumOfConnectedCameras, GetCameraProperty 0, OpenCamera 0,
    InitCamera 0, SetROIFormat 0 4 3 1 ASI_IMG_RAW16,
    SetControlValue 0 ASI_EXPOSURE 1000000 False,
    SetControlValue 0 ASI_GAIN 100 False,
    Stdout ''Camera initialized. Beginning capture loop...'',
    StartExposure 0 False, GetExpStatus 0, Sleep_ms 10, GetExpStatus 0,
    Sleep_ms 10, GetDataAfterExp 0 24, GetTimeOfDay,
    FileOpen ''./exposure-20261102-130705-061.bin'',
    FileWrite ''./exposure-20261102-130705-061.bin'' 24,
    FileClose ''./exposure-20261102-130705-061.bin'',
    Stdout ([CHR 0xE2, CHR 0x9C, CHR 0x93] @ '' Saved ./exposure-20261102-130705-061.bin''),
    Sleep_ms 100, Sleep_ms 100, StartExposure 0 False, GetExpStatus 0,
    Sleep_ms 10, GetDataAfterExp 0 24, GetTimeOfDay,
    FileOpen ''./exposure-20261102-130705-075.bin'',
    FileWrite ''./exposure-20261102-130705-075.bin'' 24,
    FileClose ''./exposure-20261102-130705-075.bin'',
    Stdout ([CHR 0xE2, CHR 0x9C, CHR 0x93] @ '' Saved ./exposure-20261102-130705-075.bin''),
    Sleep_ms 100, Sleep_ms 100, StartExposure 0 False, GetExpStatus 0,
    Sleep_ms 10, Stdout (CHR 0x0A # ''Stopping capture...''), CloseCamera 0,
    Stdout ''Camera closed. Exiting.'']"

definition failed_exposure_trace :: "event list" where
  "failed_exposure_trace =
   [Signal SIGINT, Signal SIGTERM,
    Stdout ''Starting continuous ZWO ASICamera capture...'',
    Stdout ''Output directory: .'', Stdout ''Exposure time: 1 s'',
    Stdout ''Gain: 100'', Stdout ''Interval: 1.5 s'',
    GetNumOfConnectedCameras, GetCameraProperty 0, OpenCamera 0,
    InitCamera 0, SetROIFormat 0 4 3 1 ASI_IMG_RAW16,
    SetControlValue 0 ASI_EXPOSURE 1000000 False,
    SetControlValue 0 ASI_GAIN 100 False,
    Stdout ''Camera initialized. Beginning capture loop...'',
    StartExposure 0 False, GetExpStatus 0, Sleep_ms 10,
    Stderr ''Exposure failed, skipping frame'',
    StartExposure 0 False, GetExpStatus 0, Sleep_ms 10,
    Stdout (CHR 0x0A # ''Stopping capture...''), CloseCamera 0,
    Stdout ''Camera closed. Exiting.'']"

section \<open>Properties\<close>

subsection \<open>The file name\<close>

lemma digits_lt10: "n < 10 \<Longrightarrow> digits n = [digit_char n]"
  by (simp add: digits.simps)

lemma digits_lt100: "10 \<le> n \<Longrightarrow> n < 100 \<Longrightarrow> digits n = [digit_char (n div 10), digit_char (n mod 10)]"
  by (subst digits.simps) (simp add: digits_lt10)

lemma digits_lt1000:
  "100 \<le> n \<Longrightarrow> n < 1000 \<Longrightarrow>
   digits n = [digit_char (n div 100), digit_char (n div 10 mod 10), digit_char (n mod 10)]"
  by (subst digits.simps) (simp add: digits_lt100 div_mult2_eq [symmetric])

lemma digits_lt10000:
  "1000 \<le> n \<Longrightarrow> n < 10000 \<Longrightarrow>
   digits n = [digit_char (n div 1000), digit_char (n div 100 mod 10),
               digit_char (n div 10 mod 10), digit_char (n mod 10)]"
  by (subst digits.simps) (simp add: digits_lt1000 div_mult2_eq [symmetric])

lemma digit_char_0: "digit_char 0 = CHR ''0''"
  by (simp add: digit_char_def)

lemma setw2_two_digits: "n < 100 \<Longrightarrow> setw 2 CHR ''0'' (digits n) = two_digits n"
  by (cases "n < 10")
    (simp_all add: setw_def two_digits_def digits_lt10 digits_lt100 digit_char_0 numeral_2_eq_2)

lemma setw3_three_digits: "n < 1000 \<Longrightarrow> setw 3 CHR ''0'' (digits n) = three_digits n"
proof -
  assume n: "n < 1000"
  consider "n < 10" | "10 \<le> n" "n < 100" | "100 \<le> n" by linarith
  then show ?thesis
  proof cases
    case 1 then show ?thesis
      by (simp add: setw_def three_digits_def digits_lt10 digit_char_0 numeral_2_eq_2)
  next
    case 2 then show ?thesis
      by (simp add: setw_def three_digits_def digits_lt100 digit_char_0)
  next
    case 3 with n show ?thesis
      by (simp add: setw_def three_digits_def digits_lt1000)
  qed
qed

lemma show_int_nonneg: "0 \<le> i \<Longrightarrow> show_int i = digits (nat i)"
  by (simp add: show_int_def)

lemma digit_char_inj: "a < 10 \<Longrightarrow> b < 10 \<Longrightarrow> digit_char a = digit_char b \<Longrightarrow> a = b"
proof -
  assume a: "a < 10" and b: "b < 10" and e: "digit_char a = digit_char b"
  have d: "distinct ''0123456789''" by simp
  have "length ''0123456789'' = 10" by simp
  with a b e d show ?thesis
    unfolding digit_char_def by (metis nth_eq_iff_index_eq)
qed

lemma mod_div_decomp_1000:
  "(n::nat) < 1000 \<Longrightarrow> 100 * (n div 100 mod 10) + 10 * (n div 10 mod 10) + n mod 10 = n"
proof -
  assume n: "n < 1000"
  have a: "n mod (10 * 10) = 10 * (n div 10 mod 10) + n mod 10" by (rule mod_mult2_eq)
  have b: "n div 100 mod 10 = n div 100" using n by simp
  have c: "100 * (n div 100) + n mod 100 = n" by simp
  from a b c show ?thesis by simp
qed

lemma three_digits_inj:
  assumes "a < 1000" "b < 1000" "three_digits a = three_digits b"
  shows "a = b"
proof -
  from assms(3) have
    h: "digit_char (a div 100 mod 10) = digit_char (b div 100 mod 10)"
    and t: "digit_char (a div 10 mod 10) = digit_char (b div 10 mod 10)"
    and u: "digit_char (a mod 10) = digit_char (b mod 10)"
    by (simp_all add: three_digits_def)
  have "a div 100 mod 10 = b div 100 mod 10" by (rule digit_char_inj [OF _ _ h]) simp_all
  moreover have "a div 10 mod 10 = b div 10 mod 10" by (rule digit_char_inj [OF _ _ t]) simp_all
  moreover have "a mod 10 = b mod 10" by (rule digit_char_inj [OF _ _ u]) simp_all
  moreover have "a = 100 * (a div 100 mod 10) + 10 * (a div 10 mod 10) + a mod 10"
    using assms(1) by (simp only: mod_div_decomp_1000)
  moreover have "b = 100 * (b div 100 mod 10) + 10 * (b div 10 mod 10) + b mod 10"
    using assms(2) by (simp only: mod_div_decomp_1000)
  ultimately show ?thesis by simp
qed

lemma make_filename_eq_spec:
  assumes "valid_tm ltm" "valid_timeval tv" "1000 \<le> 1900 + tm_year ltm" "1900 + tm_year ltm \<le> 9999"
  shows "make_filename ltm tv =
     spec_filename (1900 + tm_year ltm) (1 + tm_mon ltm) (tm_mday ltm) (tm_hour ltm)
       (tm_min ltm) (tm_sec ltm) (tv_usec tv div 1000)"
proof -
  have f2: "setw 2 CHR ''0'' (show_int i) = two_digits (nat i)" if "0 \<le> i" "i < 100" for i
    using that by (simp add: show_int_nonneg setw2_two_digits)
  have f3: "setw 3 CHR ''0'' (show_int i) = three_digits (nat i)" if "0 \<le> i" "i < 1000" for i
    using that by (simp add: show_int_nonneg setw3_three_digits)
  have f4: "show_int i = four_digits (nat i)" if "1000 \<le> i" "i \<le> 9999" for i
    using that by (simp add: show_int_nonneg digits_lt10000 four_digits_def)
  have ms: "0 \<le> tv_usec tv div 1000" "tv_usec tv div 1000 < 1000"
    using assms(2) unfolding valid_timeval_def by linarith+
  have cd: "c_div (tv_usec tv) 1000 = tv_usec tv div 1000"
    using assms(2) by (simp add: valid_timeval_def c_div_def)
  show ?thesis
    unfolding make_filename_def spec_filename_def cd
    using assms(1,3,4) ms
    by (simp only: valid_tm_def f2 f3 f4) (simp add: f2 f3 f4)
qed


lemma make_filename_split:
  "make_filename ltm tv =
     (''exposure-'' @ show_int (1900 + tm_year ltm)
       @ setw 2 CHR ''0'' (show_int (1 + tm_mon ltm))
       @ setw 2 CHR ''0'' (show_int (tm_mday ltm)) @ ''-''
       @ setw 2 CHR ''0'' (show_int (tm_hour ltm))
       @ setw 2 CHR ''0'' (show_int (tm_min ltm))
       @ setw 2 CHR ''0'' (show_int (tm_sec ltm)) @ ''-'')
     @ setw 3 CHR ''0'' (show_int (c_div (tv_usec tv) 1000)) @ ''.bin''"
  by (simp add: make_filename_def)

lemma millis_field:
  assumes "valid_timeval tv"
  shows "setw 3 CHR ''0'' (show_int (c_div (tv_usec tv) 1000)) = three_digits (nat (tv_usec tv div 1000))"
    and "nat (tv_usec tv div 1000) < 1000"
proof -
  have ms: "0 \<le> tv_usec tv div 1000" "tv_usec tv div 1000 < 1000"
    using assms unfolding valid_timeval_def by linarith+
  have cd: "c_div (tv_usec tv) 1000 = tv_usec tv div 1000"
    using assms by (simp add: valid_timeval_def c_div_def)
  from ms show "nat (tv_usec tv div 1000) < 1000" by simp
  from ms show "setw 3 CHR ''0'' (show_int (c_div (tv_usec tv) 1000)) = three_digits (nat (tv_usec tv div 1000))"
    unfolding cd by (simp add: show_int_nonneg setw3_three_digits)
qed

lemma make_filename_distinct:
  assumes "valid_timeval tv" "valid_timeval tv'" "tv_usec tv div 1000 \<noteq> tv_usec tv' div 1000"
  shows "make_filename ltm tv \<noteq> make_filename ltm tv'"
proof
  assume "make_filename ltm tv = make_filename ltm tv'"
  then have "three_digits (nat (tv_usec tv div 1000)) = three_digits (nat (tv_usec tv' div 1000))"
    unfolding make_filename_split same_append_eq append_same_eq
    by (simp only: millis_field(1) [OF assms(1)] millis_field(1) [OF assms(2)])
  then have "nat (tv_usec tv div 1000) = nat (tv_usec tv' div 1000)"
    by (rule three_digits_inj [OF millis_field(2) [OF assms(1)] millis_field(2) [OF assms(2)]])
  moreover have "0 \<le> tv_usec tv div 1000" "0 \<le> tv_usec tv' div 1000"
    using assms(1,2) unfolding valid_timeval_def by linarith+
  ultimately show False using assms(3) by simp
qed

text \<open>
  Claim C7. For a broken-down time and a \<open>timeval\<close> within their POSIX ranges, in a year
  of four digits, the name is \<open>exposure-YYYYMMDD-HHMMSS-mmm.bin\<close> with every field
  zero-padded to its width: 32 characters. The name is a function of the sampled time
  alone: two samples of the same calendar second have the same name when their
  milliseconds are equal, and different names when their milliseconds differ.
\<close>

theorem make_filename_format:
  "(valid_tm ltm \<and> valid_timeval tv \<and> 1000 \<le> 1900 + tm_year ltm \<and> 1900 + tm_year ltm \<le> 9999 \<longrightarrow>
      make_filename ltm tv =
        spec_filename (1900 + tm_year ltm) (1 + tm_mon ltm) (tm_mday ltm) (tm_hour ltm)
          (tm_min ltm) (tm_sec ltm) (tv_usec tv div 1000)
      \<and> length (make_filename ltm tv) = 32) \<and>
   (valid_timeval tv \<and> valid_timeval tv' \<longrightarrow>
      (make_filename ltm tv = make_filename ltm tv' \<longleftrightarrow>
       tv_usec tv div 1000 = tv_usec tv' div 1000))"
proof (intro conjI impI)
  assume h: "valid_tm ltm \<and> valid_timeval tv \<and> 1000 \<le> 1900 + tm_year ltm \<and> 1900 + tm_year ltm \<le> 9999"
  then show e: "make_filename ltm tv =
        spec_filename (1900 + tm_year ltm) (1 + tm_mon ltm) (tm_mday ltm) (tm_hour ltm)
          (tm_min ltm) (tm_sec ltm) (tv_usec tv div 1000)"
    by (simp add: make_filename_eq_spec)
  show "length (make_filename ltm tv) = 32"
    unfolding e by (simp add: spec_filename_def two_digits_def three_digits_def four_digits_def)
next
  assume v: "valid_timeval tv \<and> valid_timeval tv'"
  show "make_filename ltm tv = make_filename ltm tv' \<longleftrightarrow>
       tv_usec tv div 1000 = tv_usec tv' div 1000"
  proof
    assume "make_filename ltm tv = make_filename ltm tv'"
    with v show "tv_usec tv div 1000 = tv_usec tv' div 1000"
      using make_filename_distinct [of tv tv' ltm] by blast
  next
    assume "tv_usec tv div 1000 = tv_usec tv' div 1000"
    with v show "make_filename ltm tv = make_filename ltm tv'"
      by (simp add: make_filename_def c_div_def valid_timeval_def)
  qed
qed

theorem make_filename_format_witness:
  "valid_tm \<lparr>tm_sec = 5, tm_min = 7, tm_hour = 13, tm_mday = 2, tm_mon = 10, tm_year = 126\<rparr> \<and>
   valid_timeval \<lparr>tv_sec = 1793624825, tv_usec = 45999\<rparr> \<and>
   valid_timeval \<lparr>tv_sec = 1793624825, tv_usec = 46000\<rparr> \<and>
   make_filename \<lparr>tm_sec = 5, tm_min = 7, tm_hour = 13, tm_mday = 2, tm_mon = 10, tm_year = 126\<rparr>
       \<lparr>tv_sec = 1793624825, tv_usec = 45999\<rparr> = ''exposure-20261102-130705-045.bin'' \<and>
   make_filename \<lparr>tm_sec = 5, tm_min = 7, tm_hour = 13, tm_mday = 2, tm_mon = 10, tm_year = 126\<rparr>
       \<lparr>tv_sec = 1793624825, tv_usec = 45999\<rparr> \<noteq>
   make_filename \<lparr>tm_sec = 5, tm_min = 7, tm_hour = 13, tm_mday = 2, tm_mon = 10, tm_year = 126\<rparr>
       \<lparr>tv_sec = 1793624825, tv_usec = 46000\<rparr>"
  using make_filename_format
    [of "\<lparr>tm_sec = 5, tm_min = 7, tm_hour = 13, tm_mday = 2, tm_mon = 10, tm_year = 126\<rparr>"
        "\<lparr>tv_sec = 1793624825, tv_usec = 45999\<rparr>"
        "\<lparr>tv_sec = 1793624825, tv_usec = 46000\<rparr>"]
  by (auto simp add: valid_tm_def valid_timeval_def spec_filename_def two_digits_def
      three_digits_def four_digits_def digit_char_def)

subsection \<open>The command line\<close>

lemma last_or_Nil: "last_or d [] = d"
  by (simp add: last_or_def)

lemma last_or_Cons: "last_or d (x # xs) = last_or x xs"
  by (simp add: last_or_def)

lemma parse_from_other: "\<not> recognised a \<Longrightarrow> parse_from lib c (a # rest) = parse_from lib c rest"
  by (cases rest) (simp_all add: recognised_def)

lemma last_wins_Nil: "last_wins lib c [] = c"
  by (simp add: last_wins_def last_or_Nil)

lemma last_wins_Other: "last_wins lib c (Other a # r) = last_wins lib c r"
  by (simp add: last_wins_def)

lemma last_wins_output_dir:
  "last_wins lib c (Opt ''--output-dir'' v # r) = last_wins lib (c\<lparr>output_dir := v\<rparr>) r"
  by (simp add: last_wins_def last_or_Cons)

lemma last_wins_exposure:
  "stod lib v = Some x \<Longrightarrow>
   last_wins lib c (Opt ''--exposure-time'' v # r) = last_wins lib (c\<lparr>exposure_seconds := x\<rparr>) r"
  by (simp add: last_wins_def last_or_Cons)

lemma last_wins_gain:
  "stoi lib v = Some g \<Longrightarrow>
   last_wins lib c (Opt ''--gain'' v # r) = last_wins lib (c\<lparr>gain_value := g\<rparr>) r"
  by (simp add: last_wins_def last_or_Cons)

lemma last_wins_interval:
  "stod lib v = Some x \<Longrightarrow>
   last_wins lib c (Opt ''--interval'' v # r) = last_wins lib (c\<lparr>interval_seconds := x\<rparr>) r"
  by (simp add: last_wins_def last_or_Cons)

lemma values_parse_Other: "values_parse lib (Other a # r) = values_parse lib r"
  by (simp add: values_parse_def)

lemma values_parse_Opt:
  "values_parse lib (Opt f v # r) \<Longrightarrow> values_parse lib r"
  by (auto simp add: values_parse_def split: if_splits)

lemma values_parse_head:
  "values_parse lib (Opt ''--exposure-time'' v # r) \<Longrightarrow> \<exists>x. stod lib v = Some x"
  "values_parse lib (Opt ''--gain'' v # r) \<Longrightarrow> \<exists>g. stoi lib v = Some g"
  "values_parse lib (Opt ''--interval'' v # r) \<Longrightarrow> \<exists>x. stod lib v = Some x"
  by (auto simp add: values_parse_def)

lemma parse_from_render:
  assumes "list_all item_ok items" "values_parse lib items" "length trailing \<le> 1"
  shows "parse_from lib c (render items @ trailing) = Inr (last_wins lib c items)"
  using assms(1,2)
proof (induction items arbitrary: c)
  case Nil
  from assms(3) have "trailing = [] \<or> (\<exists>a. trailing = [a])"
    by (cases trailing) auto
  then show ?case by (auto simp add: last_wins_Nil)
next
  case (Cons it items)
  show ?case
  proof (cases it)
    case (Other a)
    with Cons show ?thesis
      by (simp add: parse_from_other last_wins_Other values_parse_Other)
  next
    case (Opt f v)
    with Cons.prems have rec: "recognised f" and ok: "list_all item_ok items"
      and vp: "values_parse lib items"
      by (auto dest: values_parse_Opt)
    note IH = Cons.IH [OF ok vp]
    from rec consider "f = ''--output-dir''" | "f = ''--exposure-time''" | "f = ''--gain''"
      | "f = ''--interval''"
      by (auto simp add: recognised_def)
    then show ?thesis
    proof cases
      case 1
      then show ?thesis using Opt IH by (simp add: last_wins_output_dir)
    next
      case 2
      with Cons.prems(2) Opt obtain x where "stod lib v = Some x"
        using values_parse_head(1) by blast
      with 2 show ?thesis using Opt IH by (simp add: last_wins_exposure)
    next
      case 3
      with Cons.prems(2) Opt obtain g where "stoi lib v = Some g"
        using values_parse_head(2) by blast
      with 3 show ?thesis using Opt IH by (simp add: last_wins_gain)
    next
      case 4
      with Cons.prems(2) Opt obtain x where "stod lib v = Some x"
        using values_parse_head(3) by blast
      with 4 show ?thesis using Opt IH by (simp add: last_wins_interval)
    qed
  qed
qed

text \<open>
  Claim C10. On a command line made of recognised flags with their values and of other
  arguments, with numeric values that parse: a recognised flag standing last, with no
  value after it, changes nothing and raises nothing, so that alone it leaves the
  defaults; and every flag ends with the value of its last occurrence.
\<close>

theorem parse_args_last_occurrence:
  "list_all item_ok items \<and> values_parse lib items \<and> recognised f \<longrightarrow>
     parse_args lib (prog # render items @ [f]) = Inr (last_wins lib (defaults lib) items) \<and>
     parse_args lib (prog # render items) = Inr (last_wins lib (defaults lib) items) \<and>
     parse_args lib [prog, f] = Inr (defaults lib)"
  using parse_from_render [of items lib "[f]" "defaults lib"]
    parse_from_render [of items lib "[]" "defaults lib"]
  by (simp add: parse_args_def)

theorem parse_args_last_occurrence_witness:
  "list_all item_ok
     [Opt ''--gain'' ''7'', Other ''extra'', Opt ''--interval'' ''2.5'', Opt ''--gain'' ''300'',
      Opt ''--output-dir'' ''--gain''] \<and>
   values_parse sample_library
     [Opt ''--gain'' ''7'', Other ''extra'', Opt ''--interval'' ''2.5'', Opt ''--gain'' ''300'',
      Opt ''--output-dir'' ''--gain''] \<and>
   recognised ''--exposure-time'' \<and>
   parse_args sample_library
     [''capture'', ''--gain'', ''7'', ''extra'', ''--interval'', ''2.5'', ''--gain'', ''300'',
      ''--output-dir'', ''--gain'', ''--exposure-time''] =
   Inr \<lparr> output_dir = ''--gain'', exposure_seconds = 10, gain_value = 300,
         interval_seconds = 25 \<rparr>"
  using parse_args_last_occurrence
    [of "[Opt ''--gain'' ''7'', Other ''extra'', Opt ''--interval'' ''2.5'', Opt ''--gain'' ''300'',
          Opt ''--output-dir'' ''--gain'']" sample_library "''--exposure-time''" "''capture''"]
  by (simp add: recognised_def values_parse_def last_wins_def last_or_def defaults_def
      sample_library_def)

subsection \<open>Steps of the program and the flag\<close>

lemma emit_simps:
  "tick (emit e st) = tick st"
  "keep_running (emit e st) = keep_running st"
  "trace (emit e st) = trace st @ [e]"
  by (simp_all add: emit_def)

lemma advance_simps:
  "tick (advance w st) = Suc (tick st)"
  "keep_running (advance w st) = (keep_running st \<and> \<not> signal_at w (tick st))"
  "trace (advance w st) = trace st"
  by (simp_all add: advance_def)

lemma call_simps:
  "tick (call w e st) = Suc (tick st)"
  "keep_running (call w e st) = (keep_running st \<and> \<not> signal_at w (tick st))"
  "trace (call w e st) = trace st @ [e]"
  by (simp_all add: call_def advance_simps emit_simps)

lemmas step_simps = emit_simps advance_simps call_simps

lemma follows_refl: "follows w st st"
  by (auto simp add: follows_def)

lemma follows_trans: "follows w a b \<Longrightarrow> follows w b c \<Longrightarrow> follows w a c"
  unfolding follows_def
  by (metis (no_types, lifting) le_trans linorder_not_less order_less_le_trans)

lemma follows_emit: "follows w st (emit e st)"
  by (auto simp add: follows_def emit_simps)

lemma follows_advance: "follows w st (advance w st)"
  by (auto simp add: follows_def advance_simps less_Suc_eq_le)

lemma follows_call: "follows w st (call w e st)"
  by (auto simp add: follows_def call_simps less_Suc_eq_le)

lemma follows_step:
  "follows w a b \<Longrightarrow> follows w a (emit e b)"
  "follows w a b \<Longrightarrow> follows w a (advance w b)"
  "follows w a b \<Longrightarrow> follows w a (call w e b)"
  by (blast intro: follows_trans follows_emit follows_advance follows_call)+

lemma follows_signal:
  "follows w st st' \<Longrightarrow> signal_at w T \<Longrightarrow> tick st \<le> T \<Longrightarrow> T < tick st' \<Longrightarrow> \<not> keep_running st'"
  by (auto simp add: follows_def)

lemma follows_keep: "follows w st st' \<Longrightarrow> keep_running st' \<Longrightarrow> keep_running st"
  by (simp add: follows_def)

lemma follows_tick: "follows w st st' \<Longrightarrow> tick st \<le> tick st'"
  by (simp add: follows_def)

lemma shutdown_pending_follows:
  "shutdown_pending w T st \<Longrightarrow> follows w st st' \<Longrightarrow> shutdown_pending w T st'"
  unfolding shutdown_pending_def
  using follows_signal follows_keep by (metis not_le_imp_less)

lemma shutdown_pending_running:
  "shutdown_pending w T st \<Longrightarrow> keep_running st \<Longrightarrow> tick st \<le> T"
  by (auto simp add: shutdown_pending_def)

subsection \<open>The polling loop\<close>

lemma poll_exposure_follows:
  "poll_exposure n w cid st = Some (es, st') \<Longrightarrow> follows w st st' \<and> tick st < tick st'"
proof (induction n arbitrary: st)
  case 0
  then show ?case by simp
next
  case (Suc n)
  let ?st1 = "call w (Sleep_ms 10) (call w (GetExpStatus cid) st)"
  have f1: "follows w st ?st1" by (intro follows_step follows_refl)
  show ?case
  proof (cases "exp_status_at w (tick st) = ASI_EXP_WORKING \<and> keep_running (advance w ?st1)")
    case True
    with Suc.prems have "poll_exposure n w cid (advance w ?st1) = Some (es, st')"
      by (simp add: Let_def)
    from Suc.IH [OF this] have "follows w (advance w ?st1) st'" "tick (advance w ?st1) < tick st'"
      by simp_all
    moreover have "follows w st (advance w ?st1)" by (intro follows_step follows_refl)
    ultimately show ?thesis
      by (auto intro: follows_trans simp add: step_simps)
  next
    case False
    with Suc.prems have "st' = ?st1 \<or> st' = advance w ?st1"
      by (auto simp add: Let_def split: if_splits)
    then show ?thesis
      by (auto intro: follows_step follows_refl simp add: step_simps)
  qed
qed

lemma poll_exposure_trace:
  "poll_exposure n w cid st = Some (es, st') \<Longrightarrow>
   \<exists>evs. trace st' = trace st @ evs \<and> set evs \<subseteq> {GetExpStatus cid, Sleep_ms 10}"
proof (induction n arbitrary: st)
  case 0
  then show ?case by simp
next
  case (Suc n)
  let ?st1 = "call w (Sleep_ms 10) (call w (GetExpStatus cid) st)"
  have t1: "trace ?st1 = trace st @ [GetExpStatus cid, Sleep_ms 10]"
    by (simp add: step_simps)
  show ?case
  proof (cases "exp_status_at w (tick st) = ASI_EXP_WORKING \<and> keep_running (advance w ?st1)")
    case True
    with Suc.prems have "poll_exposure n w cid (advance w ?st1) = Some (es, st')"
      by (simp add: Let_def)
    from Suc.IH [OF this] obtain evs where
      "trace st' = trace (advance w ?st1) @ evs" "set evs \<subseteq> {GetExpStatus cid, Sleep_ms 10}"
      by blast
    then have "trace st' = trace st @ ([GetExpStatus cid, Sleep_ms 10] @ evs)"
      "set ([GetExpStatus cid, Sleep_ms 10] @ evs) \<subseteq> {GetExpStatus cid, Sleep_ms 10}"
      by (simp_all add: step_simps)
    then show ?thesis by blast
  next
    case False
    with Suc.prems have "st' = ?st1 \<or> st' = advance w ?st1"
      by (auto simp add: Let_def split: if_splits)
    then have "trace st' = trace st @ [GetExpStatus cid, Sleep_ms 10]"
      by (auto simp add: step_simps)
    then show ?thesis by auto
  qed
qed

lemma poll_exposure_result:
  "poll_exposure n w cid st = Some (es, st') \<Longrightarrow>
   (\<exists>t. tick st \<le> t \<and> t < tick st' \<and> es = exp_status_at w t) \<and>
   (es = ASI_EXP_WORKING \<longrightarrow> \<not> keep_running st')"
proof (induction n arbitrary: st)
  case 0
  then show ?case by simp
next
  case (Suc n)
  let ?st1 = "call w (Sleep_ms 10) (call w (GetExpStatus cid) st)"
  show ?case
  proof (cases "exp_status_at w (tick st) = ASI_EXP_WORKING \<and> keep_running (advance w ?st1)")
    case True
    with Suc.prems have "poll_exposure n w cid (advance w ?st1) = Some (es, st')"
      by (simp add: Let_def)
    from Suc.IH [OF this] obtain t where
      t: "tick (advance w ?st1) \<le> t" "t < tick st'" "es = exp_status_at w t"
      and k: "es = ASI_EXP_WORKING \<longrightarrow> \<not> keep_running st'"
      by blast
    from t(1) have "tick st \<le> t" by (simp add: step_simps)
    with t k show ?thesis by blast
  next
    case False
    with Suc.prems have
      "es = exp_status_at w (tick st) \<and>
       ((es \<noteq> ASI_EXP_WORKING \<and> st' = ?st1) \<or> (\<not> keep_running st' \<and> st' = advance w ?st1))"
      by (auto simp add: Let_def split: if_splits)
    moreover have "tick st < tick ?st1" "tick st < tick (advance w ?st1)"
      by (simp_all add: step_simps)
    ultimately show ?thesis by auto
  qed
qed

lemma poll_exposure_terminates:
  assumes "signal_at w T"
  shows "tick st \<le> T \<or> \<not> keep_running st \<Longrightarrow> T - tick st < n \<Longrightarrow>
         \<exists>es st'. poll_exposure n w cid st = Some (es, st')"
proof (induction n arbitrary: st)
  case 0
  then show ?case by simp
next
  case (Suc n)
  let ?st1 = "call w (Sleep_ms 10) (call w (GetExpStatus cid) st)"
  let ?st2 = "advance w ?st1"
  show ?case
  proof (cases "exp_status_at w (tick st) = ASI_EXP_WORKING \<and> keep_running ?st2")
    case True
    then have k: "keep_running ?st2" by simp
    have f: "follows w st ?st2" by (intro follows_step follows_refl)
    have t2: "tick ?st2 = tick st + 3" by (simp add: step_simps)
    have "\<not> (tick st \<le> T \<and> T < tick ?st2)"
      using follows_signal [OF f assms] k by blast
    moreover have "keep_running st" using follows_keep [OF f k] .
    ultimately have le: "tick ?st2 \<le> T" using Suc.prems(1) by auto
    with Suc.prems(2) t2 have "T - tick ?st2 < n" by linarith
    from Suc.IH [OF _ this] le obtain es st' where "poll_exposure n w cid ?st2 = Some (es, st')"
      by blast
    with True show ?thesis by (simp add: Let_def)
  next
    case False
    then show ?thesis by (auto simp add: Let_def)
  qed
qed

lemma poll_until_signal:
  assumes "signal_at w T" "tick st \<le> T \<or> \<not> keep_running st"
    and "\<forall>t. tick st \<le> t \<and> t \<le> T \<longrightarrow> exp_status_at w t = ASI_EXP_WORKING"
    and "poll_exposure n w cid st = Some (es, st2)"
  shows "\<not> keep_running (advance w st2)"
proof (cases "T \<le> tick st2")
  case True
  have f: "follows w st (advance w st2)"
    using poll_exposure_follows [OF assms(4)] by (intro follows_step) simp
  show ?thesis
  proof (cases "tick st \<le> T")
    case le: True
    from True have "T < tick (advance w st2)" by (simp add: step_simps)
    from follows_signal [OF f assms(1) le this] show ?thesis .
  next
    case False
    with assms(2) have "\<not> keep_running st" by simp
    with follows_keep [OF f] show ?thesis by blast
  qed
next
  case False
  from poll_exposure_result [OF assms(4)] obtain t where
    t: "tick st \<le> t" "t < tick st2" "es = exp_status_at w t"
    and k: "es = ASI_EXP_WORKING \<longrightarrow> \<not> keep_running st2"
    by blast
  from t False have "tick st \<le> t \<and> t \<le> T" by simp
  with assms(3) t(3) have "es = ASI_EXP_WORKING" by simp
  with k show ?thesis by (simp add: step_simps)
qed

subsection \<open>The pacing loop\<close>

lemma pace_follows:
  "pace n lib w iv k st = Some st' \<Longrightarrow> follows w st st'"
proof (induction n arbitrary: st k)
  case 0
  then show ?case by simp
next
  case (Suc n)
  show ?case
  proof (cases "waited_lt lib k iv \<and> keep_running (advance w st)")
    case True
    with Suc.prems have "pace n lib w iv (Suc k) (call w (Sleep_ms 100) (advance w st)) = Some st'"
      by (simp add: Let_def)
    from Suc.IH [OF this] have "follows w (call w (Sleep_ms 100) (advance w st)) st'" .
    moreover have "follows w st (call w (Sleep_ms 100) (advance w st))"
      by (intro follows_step follows_refl)
    ultimately show ?thesis by (rule follows_trans [rotated])
  next
    case False
    with Suc.prems have "st' = st \<or> st' = advance w st"
      by (auto simp add: Let_def split: if_splits)
    then show ?thesis by (auto intro: follows_step follows_refl)
  qed
qed

lemma pace_trace:
  "pace n lib w iv k st = Some st' \<Longrightarrow> \<exists>m. trace st' = trace st @ replicate m (Sleep_ms 100)"
proof (induction n arbitrary: st k)
  case 0
  then show ?case by simp
next
  case (Suc n)
  show ?case
  proof (cases "waited_lt lib k iv \<and> keep_running (advance w st)")
    case True
    with Suc.prems have "pace n lib w iv (Suc k) (call w (Sleep_ms 100) (advance w st)) = Some st'"
      by (simp add: Let_def)
    from Suc.IH [OF this] obtain m where
      "trace st' = trace (call w (Sleep_ms 100) (advance w st)) @ replicate m (Sleep_ms 100)"
      by blast
    then have "trace st' = trace st @ replicate (Suc m) (Sleep_ms 100)"
      by (simp add: step_simps replicate_append_same)
    then show ?thesis by blast
  next
    case False
    with Suc.prems have "st' = st \<or> st' = advance w st"
      by (auto simp add: Let_def split: if_splits)
    then have "trace st' = trace st @ replicate 0 (Sleep_ms 100)"
      by (auto simp add: step_simps)
    then show ?thesis by blast
  qed
qed

lemma pace_terminates:
  assumes "signal_at w T"
  shows "tick st \<le> T \<or> \<not> keep_running st \<Longrightarrow> T - tick st < n \<Longrightarrow>
         \<exists>st'. pace n lib w iv k st = Some st'"
proof (induction n arbitrary: st k)
  case 0
  then show ?case by simp
next
  case (Suc n)
  let ?st1 = "advance w st"
  let ?st2 = "call w (Sleep_ms 100) ?st1"
  show ?case
  proof (cases "waited_lt lib k iv \<and> keep_running ?st1")
    case True
    then have k: "keep_running ?st1" by simp
    have f: "follows w st ?st1" by (intro follows_step follows_refl)
    have "\<not> (tick st \<le> T \<and> T < tick ?st1)"
      using follows_signal [OF f assms] k by blast
    moreover have "keep_running st" using follows_keep [OF f k] .
    ultimately have le: "tick ?st1 \<le> T" using Suc.prems(1) by auto
    then have c: "tick ?st2 \<le> T \<or> \<not> keep_running ?st2"
      using assms by (cases "tick ?st1 = T") (auto simp add: step_simps)
    from le Suc.prems(2) have "T - tick ?st2 < n" by (simp add: step_simps)
    from Suc.IH [OF c this] obtain st' where "pace n lib w iv (Suc k) ?st2 = Some st'"
      by blast
    with True show ?thesis by (simp add: Let_def)
  next
    case False
    then show ?thesis by (auto simp add: Let_def)
  qed
qed

lemma pace_runs:
  "keep_running st \<Longrightarrow> (\<forall>t. tick st \<le> t \<and> t < tick st + 2 * m \<longrightarrow> \<not> signal_at w t) \<Longrightarrow>
   (\<forall>j<m. waited_lt lib (k + j) iv) \<Longrightarrow> \<not> waited_lt lib (k + m) iv \<Longrightarrow> m < n \<Longrightarrow>
   \<exists>st'. pace n lib w iv k st = Some st' \<and> trace st' = trace st @ replicate m (Sleep_ms 100) \<and>
         tick st' = tick st + 2 * m \<and> keep_running st'"
proof (induction m arbitrary: n k st)
  case 0
  then obtain n' where n: "n = Suc n'" by (cases n) auto
  from 0 show ?case unfolding n by simp
next
  case (Suc m)
  then obtain n' where n: "n = Suc n'" and mn: "m < n'" by (cases n) auto
  let ?st2 = "call w (Sleep_ms 100) (advance w st)"
  from Suc.prems(3) have w0: "waited_lt lib k iv" by force
  from Suc.prems(1,2) have k1: "keep_running (advance w st)" by (simp add: step_simps)
  from Suc.prems(2) have "\<not> signal_at w (Suc (tick st))" by simp
  with k1 have k2: "keep_running ?st2" by (simp add: step_simps)
  have s2: "\<forall>t. tick ?st2 \<le> t \<and> t < tick ?st2 + 2 * m \<longrightarrow> \<not> signal_at w t"
    using Suc.prems(2) by (simp add: step_simps)
  have w2: "\<forall>j<m. waited_lt lib (Suc k + j) iv"
  proof (intro allI impI)
    fix j assume "j < m"
    then have "Suc j < Suc m" by simp
    with Suc.prems(3) have "waited_lt lib (k + Suc j) iv" by blast
    then show "waited_lt lib (Suc k + j) iv" by simp
  qed
  have e2: "\<not> waited_lt lib (Suc k + m) iv" using Suc.prems(4) by simp
  from Suc.IH [OF k2 s2 w2 e2 mn] obtain st' where
    p: "pace n' lib w iv (Suc k) ?st2 = Some st'"
    and tr: "trace st' = trace ?st2 @ replicate m (Sleep_ms 100)"
    and t: "tick st' = tick ?st2 + 2 * m" and k': "keep_running st'"
    by blast
  have "pace n lib w iv k st = Some st'"
    unfolding n using w0 k1 p by (simp add: Let_def)
  moreover have "trace st' = trace st @ replicate (Suc m) (Sleep_ms 100)"
    unfolding tr by (simp add: step_simps)
  moreover have "tick st' = tick st + 2 * Suc m" unfolding t by (simp add: step_simps)
  ultimately show ?case using k' by (intro exI [of _ st'] conjI)
qed

subsection \<open>Writes that are whole\<close>

lemma whole_writes_none: "list_all no_file_op xs \<Longrightarrow> whole_writes sz xs"
  by (induction sz xs rule: whole_writes.induct) auto

lemma whole_writes_append:
  "whole_writes sz xs \<Longrightarrow> whole_writes sz ys \<Longrightarrow> whole_writes sz (xs @ ys)"
  by (induction sz xs rule: whole_writes.induct) auto

lemma whole_writes_size:
  "whole_writes sz xs \<Longrightarrow> Written p n \<in> set xs \<Longrightarrow> n = sz"
  by (induction sz xs rule: whole_writes.induct) auto

lemma file_op_Written:
  "file_op_of e = Written p n \<longleftrightarrow> e = FileWrite p n"
  "Written p n = file_op_of e \<longleftrightarrow> e = FileWrite p n"
  by (cases e; auto)+

lemma no_file_event_simps:
  "no_file_event (Stdout s)" "no_file_event (Stderr s)" "no_file_event (Signal g)"
  "no_file_event GetNumOfConnectedCameras" "no_file_event (GetCameraProperty i)"
  "no_file_event (OpenCamera i)" "no_file_event (InitCamera i)"
  "no_file_event (SetROIFormat i a b c t)" "no_file_event (SetControlValue i k v f)"
  "no_file_event (StartExposure i d)" "no_file_event (GetExpStatus i)"
  "no_file_event (Sleep_ms ms)" "no_file_event (GetDataAfterExp i z)"
  "no_file_event GetTimeOfDay" "no_file_event (CloseCamera i)"
  "\<not> no_file_event (FileOpen p)" "\<not> no_file_event (FileWrite p n)"
  "\<not> no_file_event (FileClose p)"
  by (simp_all add: no_file_event_def)

lemma no_write_complete: "list_all no_file_event xs \<Longrightarrow> complete_writes sz xs"
  unfolding complete_writes_def
  by (rule whole_writes_none) (simp add: list_all_iff no_file_event_def)

lemma complete_writes_append:
  "complete_writes sz xs \<Longrightarrow> complete_writes sz ys \<Longrightarrow> complete_writes sz (xs @ ys)"
  by (simp add: complete_writes_def whole_writes_append)

lemma complete_writes_size:
  "complete_writes sz xs \<Longrightarrow> FileWrite p n \<in> set xs \<Longrightarrow> n = sz"
  unfolding complete_writes_def
  by (rule whole_writes_size [where p = p and xs = "map file_op_of xs"]) (auto simp add: rev_image_eqI)

lemma complete_writes_Cons:
  "complete_writes sz [e] \<Longrightarrow> complete_writes sz evs \<Longrightarrow> complete_writes sz (e # evs)"
  using complete_writes_append [of sz "[e]" evs] by simp

subsection \<open>Saving a frame\<close>

lemma save_frame_unfold:
  "save_frame n lib w cfg nbytes st =
     (if file_ok w (Suc (tick st))
      then map_option (Pair Continue)
             (pace n lib w (interval_seconds cfg) 0 (saved_state w cfg nbytes st))
      else Some (Continue,
             emit (Stderr (''Error opening file for writing: '' @ frame_path w cfg st))
               (opened_state w cfg st)))"
  by (simp add: save_frame_def Let_def saved_state_def opened_state_def frame_path_def
      saved_announcement_def step_simps)

lemma opened_state_props:
  "follows w st (opened_state w cfg st)"
  "tick (opened_state w cfg st) = tick st + 2"
  "trace (opened_state w cfg st) = trace st @ [GetTimeOfDay, FileOpen (frame_path w cfg st)]"
proof -
  show "follows w st (opened_state w cfg st)"
    unfolding opened_state_def by (intro follows_step follows_refl)
  show "tick (opened_state w cfg st) = tick st + 2"
    by (simp add: opened_state_def step_simps)
  show "trace (opened_state w cfg st) = trace st @ [GetTimeOfDay, FileOpen (frame_path w cfg st)]"
    by (simp add: opened_state_def step_simps)
qed

lemma saved_state_props:
  "follows w st (saved_state w cfg nbytes st)"
  "tick (saved_state w cfg nbytes st) = tick st + 4"
  "trace (saved_state w cfg nbytes st) =
     trace st @ [GetTimeOfDay, FileOpen (frame_path w cfg st),
       FileWrite (frame_path w cfg st) nbytes, FileClose (frame_path w cfg st),
       saved_announcement (frame_path w cfg st)]"
proof -
  show "follows w st (saved_state w cfg nbytes st)"
    unfolding saved_state_def by (intro follows_step opened_state_props(1))
  show "tick (saved_state w cfg nbytes st) = tick st + 4"
    by (simp add: saved_state_def step_simps opened_state_props(2))
  show "trace (saved_state w cfg nbytes st) =
     trace st @ [GetTimeOfDay, FileOpen (frame_path w cfg st),
       FileWrite (frame_path w cfg st) nbytes, FileClose (frame_path w cfg st),
       saved_announcement (frame_path w cfg st)]"
    by (simp add: saved_state_def step_simps opened_state_props(3))
qed

lemma complete_writes_saved:
  "complete_writes nbytes
     ([GetTimeOfDay, FileOpen p, FileWrite p nbytes, FileClose p, saved_announcement p]
      @ replicate m (Sleep_ms 100))"
proof (rule complete_writes_append)
  show "complete_writes nbytes
     [GetTimeOfDay, FileOpen p, FileWrite p nbytes, FileClose p, saved_announcement p]"
    by (simp add: complete_writes_def saved_announcement_def)
  show "complete_writes nbytes (replicate m (Sleep_ms 100))"
    by (rule no_write_complete) (simp add: list_all_iff no_file_event_simps)
qed

lemma save_frame_props:
  assumes "save_frame n lib w cfg nbytes st = Some (c, st')"
  shows "follows w st st' \<and> tick st < tick st' \<and>
    (\<exists>evs. trace st' = trace st @ evs \<and> complete_writes nbytes evs)"
proof (cases "file_ok w (Suc (tick st))")
  case False
  let ?evs = "[GetTimeOfDay, FileOpen (frame_path w cfg st),
      Stderr (''Error opening file for writing: '' @ frame_path w cfg st)]"
  from False assms have st': "st' = emit (Stderr (''Error opening file for writing: '' @ frame_path w cfg st))
               (opened_state w cfg st)"
    by (simp add: save_frame_unfold)
  have tr: "trace st' = trace st @ ?evs"
    unfolding st' by (simp add: step_simps opened_state_props)
  have cw: "complete_writes nbytes ?evs"
    by (simp add: complete_writes_def)
  have f: "follows w st st'" unfolding st' by (intro follows_step opened_state_props(1))
  have t: "tick st < tick st'" unfolding st' by (simp add: step_simps opened_state_props)
  show ?thesis by (intro conjI exI [of _ ?evs] f t tr cw)
next
  case True
  with assms have "map_option (Pair Continue)
      (pace n lib w (interval_seconds cfg) 0 (saved_state w cfg nbytes st)) = Some (c, st')"
    by (simp add: save_frame_unfold)
  then have saved: "pace n lib w (interval_seconds cfg) 0 (saved_state w cfg nbytes st) = Some st'"
    by (cases "pace n lib w (interval_seconds cfg) 0 (saved_state w cfg nbytes st)") simp_all
  from pace_follows [OF saved] have f: "follows w (saved_state w cfg nbytes st) st'" .
  from pace_trace [OF saved] obtain m where
    m: "trace st' = trace (saved_state w cfg nbytes st) @ replicate m (Sleep_ms 100)" by blast
  let ?evs = "[GetTimeOfDay, FileOpen (frame_path w cfg st),
       FileWrite (frame_path w cfg st) nbytes, FileClose (frame_path w cfg st),
       saved_announcement (frame_path w cfg st)] @ replicate m (Sleep_ms 100)"
  have tr: "trace st' = trace st @ ?evs"
    unfolding m by (simp add: saved_state_props)
  have cw: "complete_writes nbytes ?evs" by (rule complete_writes_saved)
  have f': "follows w st st'" using saved_state_props(1) f by (rule follows_trans)
  have t: "tick st < tick st'" using follows_tick [OF f] by (simp add: saved_state_props)
  show ?thesis by (intro conjI exI [of _ ?evs] f' t tr cw)
qed

lemma save_frame_traces:
  assumes "save_frame k lib w cfg nbytes st = Some (c, st')"
  shows "c = Continue"
    and "file_ok w (Suc (tick st)) \<Longrightarrow>
      \<exists>m. trace st' = trace st @
        [GetTimeOfDay, FileOpen (frame_path w cfg st), FileWrite (frame_path w cfg st) nbytes,
         FileClose (frame_path w cfg st), saved_announcement (frame_path w cfg st)]
        @ replicate m (Sleep_ms 100)"
    and "\<not> file_ok w (Suc (tick st)) \<Longrightarrow>
      trace st' = trace st @
        [GetTimeOfDay, FileOpen (frame_path w cfg st),
         Stderr (''Error opening file for writing: '' @ frame_path w cfg st)]"
proof -
  from assms show "c = Continue"
    by (auto simp add: save_frame_unfold split: if_splits)
next
  assume ok: "file_ok w (Suc (tick st))"
  with assms have "map_option (Pair Continue)
      (pace k lib w (interval_seconds cfg) 0 (saved_state w cfg nbytes st)) = Some (c, st')"
    by (simp add: save_frame_unfold)
  then have saved: "pace k lib w (interval_seconds cfg) 0 (saved_state w cfg nbytes st) = Some st'"
    by (cases "pace k lib w (interval_seconds cfg) 0 (saved_state w cfg nbytes st)") simp_all
  from pace_trace [OF saved] obtain m where
    m: "trace st' = trace (saved_state w cfg nbytes st) @ replicate m (Sleep_ms 100)" by auto
  have "trace st' = trace st @
        [GetTimeOfDay, FileOpen (frame_path w cfg st), FileWrite (frame_path w cfg st) nbytes,
         FileClose (frame_path w cfg st), saved_announcement (frame_path w cfg st)]
        @ replicate m (Sleep_ms 100)"
    unfolding m by (simp add: saved_state_props)
  then show "\<exists>m. trace st' = trace st @
        [GetTimeOfDay, FileOpen (frame_path w cfg st), FileWrite (frame_path w cfg st) nbytes,
         FileClose (frame_path w cfg st), saved_announcement (frame_path w cfg st)]
        @ replicate m (Sleep_ms 100)"
    by (rule exI [of _ m])
next
  assume "\<not> file_ok w (Suc (tick st))"
  with assms have st': "st' = emit (Stderr (''Error opening file for writing: '' @ frame_path w cfg st))
               (opened_state w cfg st)"
    by (simp add: save_frame_unfold)
  show "trace st' = trace st @
        [GetTimeOfDay, FileOpen (frame_path w cfg st),
         Stderr (''Error opening file for writing: '' @ frame_path w cfg st)]"
    unfolding st' by (simp add: step_simps opened_state_props)
qed

lemma save_frame_terminates:
  assumes "shutdown_pending w T st" "T - tick st < n"
  shows "\<exists>c st'. save_frame n lib w cfg nbytes st = Some (c, st')"
proof -
  let ?st5 = "saved_state w cfg nbytes st"
  have f5: "follows w st ?st5" by (rule saved_state_props)
  from shutdown_pending_follows [OF assms(1) f5]
  have s: "signal_at w T" and i: "tick ?st5 \<le> T \<or> \<not> keep_running ?st5"
    by (simp_all add: shutdown_pending_def)
  have "T - tick ?st5 < n" using assms(2) by (simp add: saved_state_props)
  from pace_terminates [where lib = lib and iv = "interval_seconds cfg" and k = 0, OF s i this]
  obtain st' where "pace n lib w (interval_seconds cfg) 0 ?st5 = Some st'"
    by blast
  then show ?thesis
    by (simp add: save_frame_unfold)
qed

subsection \<open>One iteration and the loop\<close>

lemma capture_once_unfold:
  "capture_once n lib w cfg cid image_size st =
     (if start_code w (tick st) \<noteq> ASI_SUCCESS then
        Some (Break, emit (Stderr ''Error starting exposure'') (call w (StartExposure cid False) st))
      else
        (case poll_exposure n w cid (call w (StartExposure cid False) st) of
           None \<Rightarrow> None
         | Some (exp_status, st2) \<Rightarrow> after_poll n lib w cfg cid image_size exp_status st2))"
  by (simp add: capture_once_def after_poll_def Let_def step_simps split: option.splits)

lemma after_poll_break:
  "\<not> keep_running (advance w st2) \<Longrightarrow>
   after_poll n lib w cfg cid image_size es st2 = Some (Break, advance w st2)"
  by (simp add: after_poll_def)

lemma after_poll_props:
  assumes "after_poll n lib w cfg cid image_size es st2 = Some (c, st')"
  shows "follows w st2 st' \<and> tick st2 < tick st' \<and>
    (\<exists>evs. trace st' = trace st2 @ evs \<and> complete_writes (nat image_size) evs)"
proof -
  let ?st3 = "advance w st2"
  let ?st4 = "call w (GetDataAfterExp cid image_size) ?st3"
  have f3: "follows w st2 ?st3" by (intro follows_step follows_refl)
  have f4: "follows w st2 ?st4" by (intro follows_step follows_refl)
  consider (stop) "st' = ?st3"
    | (failed) "st' = emit (Stderr ''Exposure failed, skipping frame'') ?st3"
    | (nodata) "st' = emit (Stderr ''Error retrieving image data'') ?st4"
    | (save) "save_frame n lib w cfg (nat image_size) ?st4 = Some (c, st')"
    using assms unfolding after_poll_def by (simp split: if_splits)
  then show ?thesis
  proof cases
    case stop
    have "trace st' = trace st2 @ []" unfolding stop by (simp add: step_simps)
    moreover have "complete_writes (nat image_size) []" by (simp add: complete_writes_def)
    moreover have "tick st2 < tick st'" unfolding stop by (simp add: step_simps)
    moreover have "follows w st2 st'" unfolding stop by (rule f3)
    ultimately show ?thesis by (intro conjI exI [of _ "[]"])
  next
    case failed
    let ?evs = "[Stderr ''Exposure failed, skipping frame'']"
    have "trace st' = trace st2 @ ?evs" unfolding failed by (simp add: step_simps)
    moreover have "complete_writes (nat image_size) ?evs" by (simp add: complete_writes_def)
    moreover have "tick st2 < tick st'" unfolding failed by (simp add: step_simps)
    moreover have "follows w st2 st'" unfolding failed by (intro follows_step f3)
    ultimately show ?thesis by (intro conjI exI [of _ ?evs])
  next
    case nodata
    let ?evs = "[GetDataAfterExp cid image_size, Stderr ''Error retrieving image data'']"
    have "trace st' = trace st2 @ ?evs" unfolding nodata by (simp add: step_simps)
    moreover have "complete_writes (nat image_size) ?evs" by (simp add: complete_writes_def)
    moreover have "tick st2 < tick st'" unfolding nodata by (simp add: step_simps)
    moreover have "follows w st2 st'" unfolding nodata by (intro follows_step f4)
    ultimately show ?thesis by (intro conjI exI [of _ ?evs])
  next
    case save
    from save_frame_props [OF save] obtain evs where
      f: "follows w ?st4 st'" and t: "tick ?st4 < tick st'"
      and tr: "trace st' = trace ?st4 @ evs" and cw: "complete_writes (nat image_size) evs"
      by blast
    let ?evs = "GetDataAfterExp cid image_size # evs"
    have "trace st' = trace st2 @ ?evs" unfolding tr by (simp add: step_simps)
    moreover have "complete_writes (nat image_size) ?evs"
      by (rule complete_writes_Cons [OF _ cw]) (simp add: complete_writes_def)
    moreover have "tick st2 < tick st'" using t by (simp add: step_simps)
    moreover have "follows w st2 st'" using f4 f by (rule follows_trans)
    ultimately show ?thesis by (intro conjI exI [of _ ?evs])
  qed
qed

lemma after_poll_terminates:
  assumes "shutdown_pending w T st2" "T - tick st2 < n"
  shows "\<exists>c st'. after_poll n lib w cfg cid image_size es st2 = Some (c, st')"
proof -
  let ?st4 = "call w (GetDataAfterExp cid image_size) (advance w st2)"
  have f4: "follows w st2 ?st4" by (intro follows_step follows_refl)
  have "T - tick ?st4 < n" using assms(2) by (simp add: step_simps)
  from save_frame_terminates [OF shutdown_pending_follows [OF assms(1) f4] this]
  obtain c st' where "save_frame n lib w cfg (nat image_size) ?st4 = Some (c, st')"
    by blast
  then show ?thesis unfolding after_poll_def by simp
qed

lemma after_poll_saved:
  assumes "keep_running st2"
    and "\<forall>t. tick st2 \<le> t \<and> t < tick st2 + 6 + 2 * m \<longrightarrow> \<not> signal_at w t"
    and "\<forall>j<m. waited_lt lib j (interval_seconds cfg)"
    and "\<not> waited_lt lib m (interval_seconds cfg)" and "m < n"
    and "data_code w (Suc (tick st2)) = ASI_SUCCESS" and "file_ok w (tick st2 + 3)"
  shows "\<exists>st'. after_poll n lib w cfg cid image_size ASI_EXP_SUCCESS st2 = Some (Continue, st') \<and>
    trace st' = trace st2 @
      [GetDataAfterExp cid image_size, GetTimeOfDay,
       FileOpen (frame_path w cfg (call w (GetDataAfterExp cid image_size) (advance w st2))),
       FileWrite (frame_path w cfg (call w (GetDataAfterExp cid image_size) (advance w st2)))
         (nat image_size),
       FileClose (frame_path w cfg (call w (GetDataAfterExp cid image_size) (advance w st2))),
       saved_announcement
         (frame_path w cfg (call w (GetDataAfterExp cid image_size) (advance w st2)))]
      @ replicate m (Sleep_ms 100)"
proof -
  let ?st4 = "call w (GetDataAfterExp cid image_size) (advance w st2)"
  let ?st5 = "saved_state w cfg (nat image_size) ?st4"
  have quiet: "\<not> signal_at w t" if "tick st2 \<le> t" "t < tick st2 + 6 + 2 * m" for t
    using assms(2) that by blast
  have f: "follows w st2 ?st5"
    by (rule follows_trans [OF _ saved_state_props(1)]) (intro follows_step follows_refl)
  have t5: "tick ?st5 = tick st2 + 6" by (simp add: saved_state_props step_simps)
  have "\<forall>t. tick st2 \<le> t \<and> t < tick ?st5 \<longrightarrow> \<not> signal_at w t"
    unfolding t5 using quiet by simp
  with f assms(1) have k5: "keep_running ?st5" by (simp add: follows_def)
  have q5: "\<forall>t. tick ?st5 \<le> t \<and> t < tick ?st5 + 2 * m \<longrightarrow> \<not> signal_at w t"
    unfolding t5 using quiet by simp
  have w5: "\<forall>j<m. waited_lt lib (0 + j) (interval_seconds cfg)" using assms(3) by simp
  have e5: "\<not> waited_lt lib (0 + m) (interval_seconds cfg)" using assms(4) by simp
  from pace_runs [OF k5 q5 w5 e5 assms(5)] obtain st' where
    p: "pace n lib w (interval_seconds cfg) 0 ?st5 = Some st'"
    and tr: "trace st' = trace ?st5 @ replicate m (Sleep_ms 100)"
    by blast
  have k3: "keep_running (advance w st2)"
    using assms(1) quiet [of "tick st2"] by (simp add: step_simps)
  have ok: "file_ok w (Suc (tick ?st4))" using assms(7) by (simp add: step_simps numeral_3_eq_3)
  have "after_poll n lib w cfg cid image_size ASI_EXP_SUCCESS st2 = Some (Continue, st')"
    using k3 assms(6) ok p by (simp add: after_poll_def save_frame_unfold)
  moreover have "trace st' = trace st2 @
      [GetDataAfterExp cid image_size, GetTimeOfDay,
       FileOpen (frame_path w cfg ?st4), FileWrite (frame_path w cfg ?st4) (nat image_size),
       FileClose (frame_path w cfg ?st4), saved_announcement (frame_path w cfg ?st4)]
      @ replicate m (Sleep_ms 100)"
    unfolding tr by (simp add: saved_state_props step_simps)
  ultimately show ?thesis by (intro exI [of _ st'] conjI)
qed

lemma after_poll_abandoned:
  assumes "keep_running st2" "\<not> signal_at w (tick st2)"
  shows "es \<noteq> ASI_EXP_SUCCESS \<longrightarrow>
      (\<exists>st'. after_poll n lib w cfg cid image_size es st2 = Some (Continue, st') \<and>
         trace st' = trace st2 @ [Stderr ''Exposure failed, skipping frame''])"
    and "data_code w (Suc (tick st2)) \<noteq> ASI_SUCCESS \<longrightarrow>
      (\<exists>st'. after_poll n lib w cfg cid image_size ASI_EXP_SUCCESS st2 = Some (Continue, st') \<and>
         trace st' = trace st2 @
           [GetDataAfterExp cid image_size, Stderr ''Error retrieving image data''])"
    and "data_code w (Suc (tick st2)) = ASI_SUCCESS \<and> \<not> file_ok w (tick st2 + 3) \<longrightarrow>
      (\<exists>st'. after_poll n lib w cfg cid image_size ASI_EXP_SUCCESS st2 = Some (Continue, st') \<and>
         trace st' = trace st2 @
           [GetDataAfterExp cid image_size, GetTimeOfDay,
            FileOpen (frame_path w cfg (call w (GetDataAfterExp cid image_size) (advance w st2))),
            Stderr (''Error opening file for writing: '' @
              frame_path w cfg (call w (GetDataAfterExp cid image_size) (advance w st2)))])"
  using assms
  by (simp_all add: after_poll_def save_frame_unfold step_simps opened_state_props
      numeral_3_eq_3)

lemma capture_once_props:
  assumes "capture_once n lib w cfg cid image_size st = Some (c, st')"
  shows "follows w st st' \<and> tick st < tick st' \<and>
    (\<exists>evs. trace st' = trace st @ evs \<and> complete_writes (nat image_size) evs)"
proof (cases "start_code w (tick st) = ASI_SUCCESS")
  case False
  let ?evs = "[StartExposure cid False, Stderr ''Error starting exposure'']"
  from False assms have
    st': "st' = emit (Stderr ''Error starting exposure'') (call w (StartExposure cid False) st)"
    by (simp add: capture_once_unfold)
  have "trace st' = trace st @ ?evs" unfolding st' by (simp add: step_simps)
  moreover have "complete_writes (nat image_size) ?evs" by (simp add: complete_writes_def)
  moreover have "tick st < tick st'" unfolding st' by (simp add: step_simps)
  moreover have "follows w st st'" unfolding st' by (intro follows_step follows_refl)
  ultimately show ?thesis by (intro conjI exI [of _ ?evs])
next
  case True
  let ?st1 = "call w (StartExposure cid False) st"
  have f1: "follows w st ?st1" by (intro follows_step follows_refl)
  from True assms obtain es st2 where
    p: "poll_exposure n w cid ?st1 = Some (es, st2)"
    and a: "after_poll n lib w cfg cid image_size es st2 = Some (c, st')"
    by (auto simp add: capture_once_unfold split: option.splits)
  from poll_exposure_follows [OF p] have f2: "follows w ?st1 st2" and t2: "tick ?st1 < tick st2"
    by simp_all
  from poll_exposure_trace [OF p] obtain evs1 where
    tr1: "trace st2 = trace ?st1 @ evs1" and s1: "set evs1 \<subseteq> {GetExpStatus cid, Sleep_ms 10}"
    by blast
  from after_poll_props [OF a] obtain evs2 where
    f3: "follows w st2 st'" and t3: "tick st2 < tick st'"
    and tr2: "trace st' = trace st2 @ evs2" and cw2: "complete_writes (nat image_size) evs2"
    by blast
  let ?evs = "(StartExposure cid False # evs1) @ evs2"
  have "trace st' = trace st @ ?evs" unfolding tr2 tr1 by (simp add: step_simps)
  moreover have "complete_writes (nat image_size) (StartExposure cid False # evs1)"
    using s1 by (intro no_write_complete) (auto simp add: list_all_iff no_file_event_simps)
  then have "complete_writes (nat image_size) ?evs" using cw2 by (rule complete_writes_append)
  moreover have "tick st < tick st'" using t2 t3 by (simp add: step_simps)
  moreover have "follows w st st'" using follows_trans [OF f1 f2] f3 by (rule follows_trans)
  ultimately show ?thesis by (intro conjI exI [of _ ?evs])
qed

lemma capture_once_terminates:
  assumes "shutdown_pending w T st" "T - tick st < n"
  shows "\<exists>c st'. capture_once n lib w cfg cid image_size st = Some (c, st')"
proof (cases "start_code w (tick st) = ASI_SUCCESS")
  case False
  then show ?thesis by (simp add: capture_once_unfold)
next
  case True
  let ?st1 = "call w (StartExposure cid False) st"
  have f1: "follows w st ?st1" by (intro follows_step follows_refl)
  have p1: "shutdown_pending w T ?st1" by (rule shutdown_pending_follows [OF assms(1) f1])
  then have s: "signal_at w T" and i: "tick ?st1 \<le> T \<or> \<not> keep_running ?st1"
    by (simp_all add: shutdown_pending_def)
  have "T - tick ?st1 < n" using assms(2) by (simp add: step_simps)
  from poll_exposure_terminates [OF s i this] obtain es st2 where
    p: "poll_exposure n w cid ?st1 = Some (es, st2)" by blast
  from poll_exposure_follows [OF p] have f2: "follows w ?st1 st2" and t2: "tick ?st1 < tick st2"
    by simp_all
  have "T - tick st2 < n" using assms(2) t2 by (simp add: step_simps)
  from after_poll_terminates [OF shutdown_pending_follows [OF p1 f2] this]
  obtain c st' where "after_poll n lib w cfg cid image_size es st2 = Some (c, st')"
    by blast
  with True p show ?thesis by (simp add: capture_once_unfold)
qed

lemma capture_once_interrupted:
  assumes "start_code w (tick st) = ASI_SUCCESS"
    and "poll_exposure n w cid (call w (StartExposure cid False) st) = Some (es, st2)"
    and "\<not> keep_running (advance w st2)"
  shows "capture_once n lib w cfg cid image_size st = Some (Break, advance w st2) \<and>
    (\<exists>evs. trace (advance w st2) = trace st @ StartExposure cid False # evs \<and>
            set evs \<subseteq> {GetExpStatus cid, Sleep_ms 10})"
proof
  from assms show "capture_once n lib w cfg cid image_size st = Some (Break, advance w st2)"
    by (simp add: capture_once_unfold after_poll_break)
  from poll_exposure_trace [OF assms(2)] obtain evs where
    "trace st2 = trace (call w (StartExposure cid False) st) @ evs"
    "set evs \<subseteq> {GetExpStatus cid, Sleep_ms 10}"
    by blast
  then have "trace (advance w st2) = trace st @ StartExposure cid False # evs \<and>
    set evs \<subseteq> {GetExpStatus cid, Sleep_ms 10}"
    by (simp add: step_simps)
  then show "\<exists>evs. trace (advance w st2) = trace st @ StartExposure cid False # evs \<and>
            set evs \<subseteq> {GetExpStatus cid, Sleep_ms 10}"
    by (rule exI)
qed

lemma capture_loop_props:
  "capture_loop n lib w cfg cid image_size st = Some st' \<Longrightarrow>
   follows w st st' \<and> tick st < tick st' \<and>
   (\<exists>evs. trace st' = trace st @ evs \<and> complete_writes (nat image_size) evs)"
proof (induction n arbitrary: st)
  case 0
  then show ?case by simp
next
  case (Suc n)
  let ?st1 = "advance w st"
  have f1: "follows w st ?st1" by (intro follows_step follows_refl)
  show ?case
  proof (cases "keep_running ?st1")
    case False
    with Suc.prems have st': "st' = ?st1" by (simp add: Let_def)
    have "trace st' = trace st @ []" unfolding st' by (simp add: step_simps)
    moreover have "complete_writes (nat image_size) []" by (simp add: complete_writes_def)
    moreover have "tick st < tick st'" unfolding st' by (simp add: step_simps)
    moreover have "follows w st st'" unfolding st' by (rule f1)
    ultimately show ?thesis by (intro conjI exI [of _ "[]"])
  next
    case True
    with Suc.prems obtain c st2 where
      o: "capture_once n lib w cfg cid image_size ?st1 = Some (c, st2)"
      and r: "c = Break \<and> st' = st2 \<or>
              c = Continue \<and> capture_loop n lib w cfg cid image_size st2 = Some st'"
      by (auto simp add: Let_def split: option.splits ctl.splits)
    from capture_once_props [OF o] obtain evs1 where
      f2: "follows w ?st1 st2" and t2: "tick ?st1 < tick st2"
      and tr1: "trace st2 = trace ?st1 @ evs1" and cw1: "complete_writes (nat image_size) evs1"
      by blast
    have f12: "follows w st st2" using f1 f2 by (rule follows_trans)
    from r show ?thesis
    proof
      assume "c = Break \<and> st' = st2"
      then have st': "st' = st2" by simp
      have "trace st' = trace st @ evs1" unfolding st' tr1 by (simp add: step_simps)
      moreover have "tick st < tick st'" unfolding st' using t2 by (simp add: step_simps)
      moreover have "follows w st st'" unfolding st' by (rule f12)
      ultimately show ?thesis using cw1 by (intro conjI exI [of _ evs1])
    next
      assume "c = Continue \<and> capture_loop n lib w cfg cid image_size st2 = Some st'"
      then have "capture_loop n lib w cfg cid image_size st2 = Some st'" by simp
      from Suc.IH [OF this] obtain evs2 where
        f3: "follows w st2 st'" and t3: "tick st2 < tick st'"
        and tr2: "trace st' = trace st2 @ evs2" and cw2: "complete_writes (nat image_size) evs2"
        by blast
      have "trace st' = trace st @ (evs1 @ evs2)" unfolding tr2 tr1 by (simp add: step_simps)
      moreover have "complete_writes (nat image_size) (evs1 @ evs2)"
        using cw1 cw2 by (rule complete_writes_append)
      moreover have "tick st < tick st'" using t2 t3 by (simp add: step_simps)
      moreover have "follows w st st'" using f12 f3 by (rule follows_trans)
      ultimately show ?thesis by (intro conjI exI [of _ "evs1 @ evs2"])
    qed
  qed
qed

lemma capture_loop_terminates:
  "shutdown_pending w T st \<Longrightarrow> T - tick st < n \<Longrightarrow>
   \<exists>st'. capture_loop n lib w cfg cid image_size st = Some st'"
proof (induction n arbitrary: st)
  case 0
  then show ?case by simp
next
  case (Suc n)
  let ?st1 = "advance w st"
  have f1: "follows w st ?st1" by (intro follows_step follows_refl)
  have p1: "shutdown_pending w T ?st1" by (rule shutdown_pending_follows [OF Suc.prems(1) f1])
  show ?case
  proof (cases "keep_running ?st1")
    case False
    then show ?thesis by (simp add: Let_def)
  next
    case True
    from shutdown_pending_running [OF p1 True] have le: "tick ?st1 \<le> T" .
    with Suc.prems(2) have fuel: "T - tick ?st1 < n" by (simp add: step_simps)
    from capture_once_terminates [OF p1 fuel] obtain c st2 where
      o: "capture_once n lib w cfg cid image_size ?st1 = Some (c, st2)" by blast
    from capture_once_props [OF o] have f2: "follows w ?st1 st2" and t2: "tick ?st1 < tick st2"
      by simp_all
    show ?thesis
    proof (cases c)
      case Break
      with True o show ?thesis by (simp add: Let_def)
    next
      case Continue
      have "T - tick st2 < n" using fuel t2 by linarith
      from Suc.IH [OF shutdown_pending_follows [OF p1 f2] this] obtain st' where
        "capture_loop n lib w cfg cid image_size st2 = Some st'" by blast
      with True o Continue show ?thesis by (simp add: Let_def)
    qed
  qed
qed

subsection \<open>\<open>main\<close>\<close>

lemma calls_simps:
  "calls w [] st = st"
  "calls w (e # evs) st = calls w evs (call w e st)"
  by (simp_all add: calls_def)

lemma calls_props:
  "follows w st (calls w evs st) \<and> tick (calls w evs st) = tick st + length evs \<and>
   trace (calls w evs st) = trace st @ evs"
proof (induction evs arbitrary: st)
  case Nil
  show ?case by (simp add: calls_simps follows_refl)
next
  case (Cons e evs)
  have "follows w st (call w e st)" by (rule follows_call)
  with Cons [of "call w e st"] show ?case
    by (auto simp add: calls_simps step_simps intro: follows_trans)
qed

lemma main_unfold:
  assumes "parse_args lib argv = Inr cfg"
  shows "main fuel lib w argv =
    (if connected_cameras w < 1 then
       Some (Exit 1, trace (initial_state lib cfg) @
          [GetNumOfConnectedCameras, Stderr ''No cameras connected!''])
     else if property_code w \<noteq> ASI_SUCCESS then
       Some (Exit 1, trace (initial_state lib cfg) @
          [GetNumOfConnectedCameras, GetCameraProperty 0,
           Stderr ''Error retrieving camera properties!''])
     else if open_code w \<noteq> ASI_SUCCESS then
       Some (Exit 1, trace (initial_state lib cfg) @
          [GetNumOfConnectedCameras, GetCameraProperty 0, OpenCamera (CameraID (camera_info w)),
           Stderr ''Error initializing camera''])
     else if init_code w \<noteq> ASI_SUCCESS then
       Some (Exit 1, trace (initial_state lib cfg) @
          [GetNumOfConnectedCameras, GetCameraProperty 0, OpenCamera (CameraID (camera_info w)),
           InitCamera (CameraID (camera_info w)), Stderr ''Error initializing camera''])
     else if frame_bytes (camera_info w) < 0 \<or> \<not> alloc_ok w (nat (frame_bytes (camera_info w))) then
       Some (Terminate, trace (initial_state lib cfg) @
          [GetNumOfConnectedCameras, GetCameraProperty 0, OpenCamera (CameraID (camera_info w)),
           InitCamera (CameraID (camera_info w))] @ settings lib w cfg)
     else capture_and_exit fuel lib w cfg (CameraID (camera_info w)) (frame_bytes (camera_info w))
            (camera_ready lib w cfg))"
  using assms
  by (simp add: main_def run_camera_def Let_def step_simps frame_bytes_def camera_ready_def
      calls_simps settings_def)

lemma camera_ready_props:
  "follows w (initial_state lib cfg) (camera_ready lib w cfg)"
  "tick (camera_ready lib w cfg) = 7"
  "trace (camera_ready lib w cfg) =
     trace (initial_state lib cfg) @
       [GetNumOfConnectedCameras, GetCameraProperty 0, OpenCamera (CameraID (camera_info w)),
        InitCamera (CameraID (camera_info w))] @ settings lib w cfg @
       [Stdout ''Camera initialized. Beginning capture loop...'']"
proof -
  let ?evs = "[GetNumOfConnectedCameras, GetCameraProperty 0,
                  OpenCamera (CameraID (camera_info w)), InitCamera (CameraID (camera_info w))]
                 @ settings lib w cfg"
  note p = calls_props [of w "initial_state lib cfg" ?evs]
  from p show "follows w (initial_state lib cfg) (camera_ready lib w cfg)"
    unfolding camera_ready_def by (intro follows_step) simp
  from p show "tick (camera_ready lib w cfg) = 7"
    by (simp add: camera_ready_def step_simps settings_def initial_state_def)
  from p show "trace (camera_ready lib w cfg) =
     trace (initial_state lib cfg) @
       [GetNumOfConnectedCameras, GetCameraProperty 0, OpenCamera (CameraID (camera_info w)),
        InitCamera (CameraID (camera_info w))] @ settings lib w cfg @
       [Stdout ''Camera initialized. Beginning capture loop...'']"
    by (simp add: camera_ready_def step_simps)
qed

lemma main_startup_ok:
  "parse_args lib argv = Inr cfg \<Longrightarrow> startup_ok w \<Longrightarrow>
   main fuel lib w argv =
     capture_and_exit fuel lib w cfg (CameraID (camera_info w)) (frame_bytes (camera_info w))
       (camera_ready lib w cfg)"
  by (simp add: main_unfold startup_ok_def)

lemma capture_and_exit_result:
  "capture_and_exit fuel lib w cfg cid image_size st = Some (out, tr) \<Longrightarrow>
   out = Exit 0 \<and>
   (\<exists>evs. tr = trace st @ evs @
            [Stdout (CHR 0x0A # ''Stopping capture...''), CloseCamera cid,
             Stdout ''Camera closed. Exiting.''] \<and>
          complete_writes (nat image_size) evs)"
proof -
  assume a: "capture_and_exit fuel lib w cfg cid image_size st = Some (out, tr)"
  then obtain st' where l: "capture_loop fuel lib w cfg cid image_size st = Some st'"
    and o: "out = Exit 0" and t: "tr = trace (shutdown w cid st')"
    by (auto simp add: capture_and_exit_def split: option.splits)
  from capture_loop_props [OF l] obtain evs where
    tr: "trace st' = trace st @ evs" and cw: "complete_writes (nat image_size) evs"
    by blast
  have "tr = trace st @ evs @
            [Stdout (CHR 0x0A # ''Stopping capture...''), CloseCamera cid,
             Stdout ''Camera closed. Exiting.'']"
    unfolding t by (simp add: shutdown_def step_simps tr)
  with o cw show ?thesis by (intro conjI exI [of _ evs])
qed

lemma main_terminates_on_signal:
  assumes "parse_args lib argv = Inr cfg" "startup_ok w" "signal_at w T"
  shows "\<exists>tr. main (Suc T) lib w argv = Some (Exit 0, tr)"
proof -
  let ?st = "camera_ready lib w cfg"
  have "shutdown_pending w T (initial_state lib cfg)"
    using assms(3) by (simp add: shutdown_pending_def initial_state_def)
  from shutdown_pending_follows [OF this camera_ready_props(1)]
  have p: "shutdown_pending w T ?st" .
  have "T - tick ?st < Suc T" by simp
  from capture_loop_terminates [OF p this] obtain st' where
    "capture_loop (Suc T) lib w cfg (CameraID (camera_info w)) (frame_bytes (camera_info w)) ?st
       = Some st'"
    by blast
  then have "main (Suc T) lib w argv =
      Some (Exit 0, trace (shutdown w (CameraID (camera_info w)) st'))"
    unfolding main_startup_ok [OF assms(1,2)] capture_and_exit_def by simp
  then show ?thesis by (rule exI)
qed

lemma banner_no_write: "list_all no_file_event (trace (initial_state lib cfg))"
  by (simp add: initial_state_def banner_def no_file_event_simps)

lemma settings_no_write: "list_all no_file_event (settings lib w cfg)"
  by (simp add: settings_def no_file_event_simps)

lemma main_writes:
  assumes "main fuel lib w argv = Some (out, tr)"
  shows "complete_writes (nat (frame_bytes (camera_info w))) tr \<and>
    (\<forall>p n. FileWrite p n \<in> set tr \<longrightarrow> 0 \<le> frame_bytes (camera_info w))"
proof (cases "parse_args lib argv")
  case (Inl e)
  with assms have "tr = []" by (simp add: main_def)
  then show ?thesis by (simp add: complete_writes_def)
next
  case (Inr cfg)
  let ?fb = "frame_bytes (camera_info w)"
  show ?thesis
  proof (cases "startup_ok w")
    case False
    with assms have q: "list_all no_file_event tr"
      unfolding main_unfold [OF Inr, of fuel w] startup_ok_def
      by (auto simp add: banner_no_write settings_no_write no_file_event_simps split: if_splits)
    then have "\<forall>p n. FileWrite p n \<notin> set tr"
      by (auto simp add: list_all_iff no_file_event_simps)
    with q show ?thesis by (simp add: no_write_complete)
  next
    case True
    have "capture_and_exit fuel lib w cfg (CameraID (camera_info w)) ?fb
        (camera_ready lib w cfg) = Some (out, tr)"
      using assms unfolding main_startup_ok [OF Inr True] .
    from capture_and_exit_result [OF this] obtain evs where
      t: "tr = trace (camera_ready lib w cfg) @ evs @
          [Stdout (CHR 0x0A # ''Stopping capture...''), CloseCamera (CameraID (camera_info w)),
           Stdout ''Camera closed. Exiting.'']"
      and cw: "complete_writes (nat ?fb) evs"
      by auto
    have "complete_writes (nat ?fb) (trace (camera_ready lib w cfg))"
      by (rule no_write_complete)
        (simp add: camera_ready_props banner_no_write settings_no_write no_file_event_simps)
    moreover have "complete_writes (nat ?fb) (evs @
          [Stdout (CHR 0x0A # ''Stopping capture...''), CloseCamera (CameraID (camera_info w)),
           Stdout ''Camera closed. Exiting.''])"
      by (rule complete_writes_append [OF cw]) (simp add: complete_writes_def)
    ultimately have "complete_writes (nat ?fb) tr"
      unfolding t by (rule complete_writes_append)
    moreover from True have "0 \<le> ?fb" by (simp add: startup_ok_def)
    ultimately show ?thesis by simp
  qed
qed

subsection \<open>Runs in the sample worlds\<close>

lemma sample_parse: "parse_args sample_library sample_argv = Inr sample_config"
  by code_simp

lemma sample_run: "main 41 sample_library sample_world sample_argv = Some (Exit 0, run_trace)"
  by code_simp

lemma sample_startup_ok: "startup_ok sample_world"
  by code_simp

lemma iteration_traceI:
  "\<exists>st'. r = Some (c, st') \<and> trace st' = tr \<Longrightarrow> iteration_trace r = Some (c, tr)"
  by (auto simp add: iteration_trace_def)

lemma quiet_window:
  "\<forall>t. tick exposed_state \<le> t \<and> t < tick exposed_state + 6 + 2 * 2 \<longrightarrow> \<not> signal_at steady_world t"
  "\<forall>t. tick exposed_state \<le> t \<and> t < tick exposed_state + 6 + 2 * 2 \<longrightarrow> \<not> signal_at no_fetch_world t"
  "\<forall>t. tick exposed_state \<le> t \<and> t < tick exposed_state + 6 + 2 * 2 \<longrightarrow> \<not> signal_at no_file_world t"
  "\<forall>t. tick exposed_state \<le> t \<and> t < tick exposed_state + 6 + 2 * 2 \<longrightarrow>
     \<not> signal_at failing_exposure_world t"
  by (simp_all add: exposed_state_def steady_world_def no_fetch_world_def no_file_world_def
      failing_exposure_world_def sample_world_def)

lemma sample_polls:
  "poll_exposure 3 steady_world 0 (call steady_world (StartExposure 0 False) loop_entry) =
     Some (ASI_EXP_SUCCESS, exposed_state)"
  "poll_exposure 3 no_fetch_world 0 (call no_fetch_world (StartExposure 0 False) loop_entry) =
     Some (ASI_EXP_SUCCESS, exposed_state)"
  "poll_exposure 3 no_file_world 0 (call no_file_world (StartExposure 0 False) loop_entry) =
     Some (ASI_EXP_SUCCESS, exposed_state)"
  "poll_exposure 3 failing_exposure_world 0
     (call failing_exposure_world (StartExposure 0 False) loop_entry) =
     Some (ASI_EXP_FAILED, exposed_state)"
  by code_simp+

lemma exposed_simps:
  "tick exposed_state = 10"
  "trace exposed_state = [StartExposure 0 False, GetExpStatus 0, Sleep_ms 10]"
  by (simp_all add: exposed_state_def)

lemma sample_paths:
  "frame_path steady_world sample_config
     (call steady_world (GetDataAfterExp 0 24) (advance steady_world exposed_state)) =
   ''./exposure-20261102-130705-057.bin''"
  "frame_path no_file_world sample_config
     (call no_file_world (GetDataAfterExp 0 24) (advance no_file_world exposed_state)) =
   ''./exposure-20261102-130705-057.bin''"
  by code_simp+

lemma sample_saves:
  "save_frame 3 sample_library steady_world sample_config 24 fetched_state =
     Some (Continue, kept_state)"
  "save_frame 3 sample_library no_file_world sample_config 24 fetched_state =
     Some (Continue, refused_state)"
  "file_ok steady_world (Suc (tick fetched_state))"
  "\<not> file_ok no_file_world (Suc (tick fetched_state))"
  "frame_path no_file_world sample_config fetched_state = ''./exposure-20261102-130705-057.bin''"
  by code_simp+

subsection \<open>Pacing\<close>

text \<open>
  Claim C1, as it is stated, fails: in the world where the first exposure ends with the
  status \<open>ASI_EXP_FAILED\<close>, the iteration is abandoned by \<open>continue\<close> and the next
  exposure is started with no pacing slice in between.
\<close>

theorem abandoned_iteration_not_paced:
  "main 3 sample_library failed_exposure_world [''capture''] = Some (Exit 0, failed_exposure_trace) \<and>
   \<not> paced failed_exposure_trace"
  by code_simp

text \<open>
  Claim C1, amended. Take an iteration whose exposure was started, whose polling loop
  has ended in the state \<open>st2\<close> with the flag set, and during which no signal arrives.
  If the frame is persisted (status success, fetch and open succeed) and the interval
  takes \<open>m\<close> slices, the iteration ends with the \<open>m\<close> slices of 100 ms of the pacing
  wait, after the file is written and before the loop condition is read again. If the
  iteration is abandoned because of the status, of the fetch or of the open, it ends
  with the message on \<open>cerr\<close> and no pacing wait.
\<close>

theorem pacing_after_persisted_frame:
  "start_code w (tick st) = ASI_SUCCESS \<and>
   poll_exposure n w cid (call w (StartExposure cid False) st) = Some (es, st2) \<and>
   keep_running st2 \<and>
   (\<forall>t. tick st2 \<le> t \<and> t < tick st2 + 6 + 2 * m \<longrightarrow> \<not> signal_at w t) \<longrightarrow>
   (es = ASI_EXP_SUCCESS \<and> data_code w (Suc (tick st2)) = ASI_SUCCESS \<and> file_ok w (tick st2 + 3) \<and>
    (\<forall>j<m. waited_lt lib j (interval_seconds cfg)) \<and> \<not> waited_lt lib m (interval_seconds cfg) \<and>
    m < n \<longrightarrow>
      (\<exists>st'. capture_once n lib w cfg cid image_size st = Some (Continue, st') \<and>
         trace st' = trace st2 @
           [GetDataAfterExp cid image_size, GetTimeOfDay,
            FileOpen (frame_path w cfg (call w (GetDataAfterExp cid image_size) (advance w st2))),
            FileWrite (frame_path w cfg (call w (GetDataAfterExp cid image_size) (advance w st2)))
              (nat image_size),
            FileClose (frame_path w cfg (call w (GetDataAfterExp cid image_size) (advance w st2))),
            saved_announcement
              (frame_path w cfg (call w (GetDataAfterExp cid image_size) (advance w st2)))]
           @ replicate m (Sleep_ms 100))) \<and>
   (es \<noteq> ASI_EXP_SUCCESS \<longrightarrow>
      (\<exists>st'. capture_once n lib w cfg cid image_size st = Some (Continue, st') \<and>
         trace st' = trace st2 @ [Stderr ''Exposure failed, skipping frame''])) \<and>
   (es = ASI_EXP_SUCCESS \<and> data_code w (Suc (tick st2)) \<noteq> ASI_SUCCESS \<longrightarrow>
      (\<exists>st'. capture_once n lib w cfg cid image_size st = Some (Continue, st') \<and>
         trace st' = trace st2 @
           [GetDataAfterExp cid image_size, Stderr ''Error retrieving image data''])) \<and>
   (es = ASI_EXP_SUCCESS \<and> data_code w (Suc (tick st2)) = ASI_SUCCESS \<and>
    \<not> file_ok w (tick st2 + 3) \<longrightarrow>
      (\<exists>st'. capture_once n lib w cfg cid image_size st = Some (Continue, st') \<and>
         trace st' = trace st2 @
           [GetDataAfterExp cid image_size, GetTimeOfDay,
            FileOpen (frame_path w cfg (call w (GetDataAfterExp cid image_size) (advance w st2))),
            Stderr (''Error opening file for writing: '' @
              frame_path w cfg (call w (GetDataAfterExp cid image_size) (advance w st2)))]))"
proof (intro impI)
  assume h: "start_code w (tick st) = ASI_SUCCESS \<and>
   poll_exposure n w cid (call w (StartExposure cid False) st) = Some (es, st2) \<and>
   keep_running st2 \<and>
   (\<forall>t. tick st2 \<le> t \<and> t < tick st2 + 6 + 2 * m \<longrightarrow> \<not> signal_at w t)"
  then have u: "capture_once n lib w cfg cid image_size st =
      after_poll n lib w cfg cid image_size es st2"
    by (simp add: capture_once_unfold)
  from h have k: "keep_running st2"
    and q: "\<forall>t. tick st2 \<le> t \<and> t < tick st2 + 6 + 2 * m \<longrightarrow> \<not> signal_at w t"
    by simp_all
  from q have q0: "\<not> signal_at w (tick st2)" by simp
  note ab = after_poll_abandoned [OF k q0]
  show "(es = ASI_EXP_SUCCESS \<and> data_code w (Suc (tick st2)) = ASI_SUCCESS \<and> file_ok w (tick st2 + 3) \<and>
    (\<forall>j<m. waited_lt lib j (interval_seconds cfg)) \<and> \<not> waited_lt lib m (interval_seconds cfg) \<and>
    m < n \<longrightarrow>
      (\<exists>st'. capture_once n lib w cfg cid image_size st = Some (Continue, st') \<and>
         trace st' = trace st2 @
           [GetDataAfterExp cid image_size, GetTimeOfDay,
            FileOpen (frame_path w cfg (call w (GetDataAfterExp cid image_size) (advance w st2))),
            FileWrite (frame_path w cfg (call w (GetDataAfterExp cid image_size) (advance w st2)))
              (nat image_size),
            FileClose (frame_path w cfg (call w (GetDataAfterExp cid image_size) (advance w st2))),
            saved_announcement
              (frame_path w cfg (call w (GetDataAfterExp cid image_size) (advance w st2)))]
           @ replicate m (Sleep_ms 100))) \<and>
   (es \<noteq> ASI_EXP_SUCCESS \<longrightarrow>
      (\<exists>st'. capture_once n lib w cfg cid image_size st = Some (Continue, st') \<and>
         trace st' = trace st2 @ [Stderr ''Exposure failed, skipping frame''])) \<and>
   (es = ASI_EXP_SUCCESS \<and> data_code w (Suc (tick st2)) \<noteq> ASI_SUCCESS \<longrightarrow>
      (\<exists>st'. capture_once n lib w cfg cid image_size st = Some (Continue, st') \<and>
         trace st' = trace st2 @
           [GetDataAfterExp cid image_size, Stderr ''Error retrieving image data''])) \<and>
   (es = ASI_EXP_SUCCESS \<and> data_code w (Suc (tick st2)) = ASI_SUCCESS \<and>
    \<not> file_ok w (tick st2 + 3) \<longrightarrow>
      (\<exists>st'. capture_once n lib w cfg cid image_size st = Some (Continue, st') \<and>
         trace st' = trace st2 @
           [GetDataAfterExp cid image_size, GetTimeOfDay,
            FileOpen (frame_path w cfg (call w (GetDataAfterExp cid image_size) (advance w st2))),
            Stderr (''Error opening file for writing: '' @
              frame_path w cfg (call w (GetDataAfterExp cid image_size) (advance w st2)))]))"
    unfolding u
  proof (intro conjI impI)
    assume "es = ASI_EXP_SUCCESS \<and> data_code w (Suc (tick st2)) = ASI_SUCCESS \<and>
      file_ok w (tick st2 + 3) \<and>
      (\<forall>j<m. waited_lt lib j (interval_seconds cfg)) \<and> \<not> waited_lt lib m (interval_seconds cfg) \<and>
      m < n"
    then show "\<exists>st'. after_poll n lib w cfg cid image_size es st2 = Some (Continue, st') \<and>
         trace st' = trace st2 @
           [GetDataAfterExp cid image_size, GetTimeOfDay,
            FileOpen (frame_path w cfg (call w (GetDataAfterExp cid image_size) (advance w st2))),
            FileWrite (frame_path w cfg (call w (GetDataAfterExp cid image_size) (advance w st2)))
              (nat image_size),
            FileClose (frame_path w cfg (call w (GetDataAfterExp cid image_size) (advance w st2))),
            saved_announcement
              (frame_path w cfg (call w (GetDataAfterExp cid image_size) (advance w st2)))]
           @ replicate m (Sleep_ms 100)"
      using after_poll_saved [OF k q, of lib cfg n cid image_size] by simp
  next
    assume "es \<noteq> ASI_EXP_SUCCESS"
    with ab(1) [of es n lib cfg cid image_size] show "\<exists>st'. after_poll n lib w cfg cid image_size es st2 = Some (Continue, st') \<and>
         trace st' = trace st2 @ [Stderr ''Exposure failed, skipping frame'']"
      by simp
  next
    assume "es = ASI_EXP_SUCCESS \<and> data_code w (Suc (tick st2)) \<noteq> ASI_SUCCESS"
    with ab(2) [of n lib cfg cid image_size] show "\<exists>st'. after_poll n lib w cfg cid image_size es st2 = Some (Continue, st') \<and>
         trace st' = trace st2 @
           [GetDataAfterExp cid image_size, Stderr ''Error retrieving image data'']"
      by simp
  next
    assume "es = ASI_EXP_SUCCESS \<and> data_code w (Suc (tick st2)) = ASI_SUCCESS \<and>
      \<not> file_ok w (tick st2 + 3)"
    with ab(3) [of n lib cfg cid image_size] show "\<exists>st'. after_poll n lib w cfg cid image_size es st2 = Some (Continue, st') \<and>
         trace st' = trace st2 @
           [GetDataAfterExp cid image_size, GetTimeOfDay,
            FileOpen (frame_path w cfg (call w (GetDataAfterExp cid image_size) (advance w st2))),
            Stderr (''Error opening file for writing: '' @
              frame_path w cfg (call w (GetDataAfterExp cid image_size) (advance w st2)))]"
      by simp
  qed
qed

theorem pacing_after_persisted_frame_witness:
  "poll_exposure 3 steady_world 0 (call steady_world (StartExposure 0 False) loop_entry) =
     Some (ASI_EXP_SUCCESS, exposed_state) \<and>
   keep_running exposed_state \<and> \<not> signal_at steady_world 19 \<and>
   waited_lt sample_library 1 (interval_seconds sample_config) \<and>
   \<not> waited_lt sample_library 2 (interval_seconds sample_config) \<and>
   iteration_trace (capture_once 3 sample_library steady_world sample_config 0 24 loop_entry) =
     Some (Continue,
       [StartExposure 0 False, GetExpStatus 0, Sleep_ms 10, GetDataAfterExp 0 24, GetTimeOfDay,
        FileOpen ''./exposure-20261102-130705-057.bin'',
        FileWrite ''./exposure-20261102-130705-057.bin'' 24,
        FileClose ''./exposure-20261102-130705-057.bin'',
        saved_announcement ''./exposure-20261102-130705-057.bin'',
        Sleep_ms 100, Sleep_ms 100]) \<and>
   poll_exposure 3 failing_exposure_world 0
       (call failing_exposure_world (StartExposure 0 False) loop_entry) =
     Some (ASI_EXP_FAILED, exposed_state) \<and>
   iteration_trace
       (capture_once 3 sample_library failing_exposure_world sample_config 0 24 loop_entry) =
     Some (Continue,
       [StartExposure 0 False, GetExpStatus 0, Sleep_ms 10,
        Stderr ''Exposure failed, skipping frame'']) \<and>
   data_code no_fetch_world 11 \<noteq> ASI_SUCCESS \<and>
   iteration_trace (capture_once 3 sample_library no_fetch_world sample_config 0 24 loop_entry) =
     Some (Continue,
       [StartExposure 0 False, GetExpStatus 0, Sleep_ms 10, GetDataAfterExp 0 24,
        Stderr ''Error retrieving image data'']) \<and>
   \<not> file_ok no_file_world 13 \<and>
   iteration_trace (capture_once 3 sample_library no_file_world sample_config 0 24 loop_entry) =
     Some (Continue,
       [StartExposure 0 False, GetExpStatus 0, Sleep_ms 10, GetDataAfterExp 0 24, GetTimeOfDay,
        FileOpen ''./exposure-20261102-130705-057.bin'',
        Stderr ''Error opening file for writing: ./exposure-20261102-130705-057.bin''])"
proof -
  have w: "\<forall>j<2. waited_lt sample_library j (interval_seconds sample_config)"
    "\<not> waited_lt sample_library 2 (interval_seconds sample_config)"
    "waited_lt sample_library 1 (interval_seconds sample_config)"
    by (simp_all add: sample_library_def sample_config_def)
  have s: "start_code steady_world (tick loop_entry) = ASI_SUCCESS"
    "start_code failing_exposure_world (tick loop_entry) = ASI_SUCCESS"
    "start_code no_fetch_world (tick loop_entry) = ASI_SUCCESS"
    "start_code no_file_world (tick loop_entry) = ASI_SUCCESS"
    "keep_running exposed_state" "\<not> signal_at steady_world 19"
    "data_code steady_world (Suc (tick exposed_state)) = ASI_SUCCESS"
    "file_ok steady_world (tick exposed_state + 3)"
    "data_code no_fetch_world (Suc (tick exposed_state)) \<noteq> ASI_SUCCESS"
    "data_code no_fetch_world 11 \<noteq> ASI_SUCCESS"
    "data_code no_file_world (Suc (tick exposed_state)) = ASI_SUCCESS"
    "\<not> file_ok no_file_world (tick exposed_state + 3)"
    "\<not> file_ok no_file_world 13"
    by (simp_all add: steady_world_def failing_exposure_world_def no_fetch_world_def
        no_file_world_def sample_world_def loop_entry_def exposed_state_def)
  have 1: "iteration_trace
      (capture_once 3 sample_library steady_world sample_config 0 24 loop_entry) =
     Some (Continue,
       [StartExposure 0 False, GetExpStatus 0, Sleep_ms 10, GetDataAfterExp 0 24, GetTimeOfDay,
        FileOpen ''./exposure-20261102-130705-057.bin'',
        FileWrite ''./exposure-20261102-130705-057.bin'' 24,
        FileClose ''./exposure-20261102-130705-057.bin'',
        saved_announcement ''./exposure-20261102-130705-057.bin'',
        Sleep_ms 100, Sleep_ms 100])"
    using pacing_after_persisted_frame
      [where w = steady_world and st = loop_entry and n = 3 and cid = 0
         and es = ASI_EXP_SUCCESS and ?st2.0 = exposed_state and m = 2 and lib = sample_library
         and cfg = sample_config and image_size = 24]
      sample_polls(1) quiet_window(1) s w
    by (intro iteration_traceI)
      (simp add: sample_paths exposed_simps numeral_2_eq_2)
  have 2: "iteration_trace
       (capture_once 3 sample_library failing_exposure_world sample_config 0 24 loop_entry) =
     Some (Continue,
       [StartExposure 0 False, GetExpStatus 0, Sleep_ms 10,
        Stderr ''Exposure failed, skipping frame''])"
    using pacing_after_persisted_frame
      [where w = failing_exposure_world and st = loop_entry and n = 3 and cid = 0
         and es = ASI_EXP_FAILED and ?st2.0 = exposed_state and m = 2 and lib = sample_library
         and cfg = sample_config and image_size = 24]
      sample_polls(4) quiet_window(4) s
    by (intro iteration_traceI) (simp add: exposed_simps)
  have 3: "iteration_trace
      (capture_once 3 sample_library no_fetch_world sample_config 0 24 loop_entry) =
     Some (Continue,
       [StartExposure 0 False, GetExpStatus 0, Sleep_ms 10, GetDataAfterExp 0 24,
        Stderr ''Error retrieving image data''])"
    using pacing_after_persisted_frame
      [where w = no_fetch_world and st = loop_entry and n = 3 and cid = 0
         and es = ASI_EXP_SUCCESS and ?st2.0 = exposed_state and m = 2 and lib = sample_library
         and cfg = sample_config and image_size = 24]
      sample_polls(2) quiet_window(2) s
    by (intro iteration_traceI) (simp add: exposed_simps)
  have 4: "iteration_trace
      (capture_once 3 sample_library no_file_world sample_config 0 24 loop_entry) =
     Some (Continue,
       [StartExposure 0 False, GetExpStatus 0, Sleep_ms 10, GetDataAfterExp 0 24, GetTimeOfDay,
        FileOpen ''./exposure-20261102-130705-057.bin'',
        Stderr ''Error opening file for writing: ./exposure-20261102-130705-057.bin''])"
    using pacing_after_persisted_frame
      [where w = no_file_world and st = loop_entry and n = 3 and cid = 0
         and es = ASI_EXP_SUCCESS and ?st2.0 = exposed_state and m = 2 and lib = sample_library
         and cfg = sample_config and image_size = 24]
      sample_polls(3) quiet_window(3) s
    by (intro iteration_traceI) (simp add: sample_paths exposed_simps)
  show ?thesis
    by (intro conjI sample_polls(1) sample_polls(4) s(5) s(6) w(3) w(2) 1 2 s(10) 3 s(13) 4)
qed

subsection \<open>The device is closed\<close>

text \<open>
  Claim C2 asks that the device be released on the path where \<open>ASIOpenCamera\<close> succeeds
  and \<open>ASIInitCamera\<close> fails. On that path \<open>main\<close> returns 1 right after the message:
  the trace has \<open>OpenCamera\<close> and no \<open>CloseCamera\<close>.
\<close>

theorem init_failure_leaves_device_open:
  "main 1 sample_library init_failure_world [''capture''] =
     Some (Exit 1,
       [Signal SIGINT, Signal SIGTERM,
        Stdout ''Starting continuous ZWO ASICamera capture...'',
        Stdout ''Output directory: .'', Stdout ''Exposure time: 1 s'',
        Stdout ''Gain: 100'', Stdout ''Interval: 1.5 s'',
        GetNumOfConnectedCameras, GetCameraProperty 0, OpenCamera 0, InitCamera 0,
        Stderr ''Error initializing camera''])"
  by code_simp

subsection \<open>Shutdown during an exposure\<close>

text \<open>
  Claim C3. At the head of the loop with the flag set, let the exposure start, and let a
  signal arrive during a later tick \<open>T\<close> while every status polled up to \<open>T\<close> is
  \<open>ASI_EXP_WORKING\<close>. Then, with fuel for the ticks up to \<open>T\<close>, the loop ends: after
  \<open>StartExposure\<close> the iteration only polls and sleeps, with no fetch and no file
  operation, and the program closes the camera and exits.
\<close>

theorem shutdown_while_exposing:
  "keep_running st \<and> \<not> signal_at w (tick st) \<and> start_code w (Suc (tick st)) = ASI_SUCCESS \<and>
   signal_at w T \<and> tick st < T \<and>
   (\<forall>t. Suc (tick st) < t \<and> t \<le> T \<longrightarrow> exp_status_at w t = ASI_EXP_WORKING) \<and>
   T - tick st \<le> n \<longrightarrow>
     (\<exists>evs. capture_and_exit (Suc n) lib w cfg cid image_size st =
              Some (Exit 0,
                trace st @ StartExposure cid False # evs @
                  [Stdout (CHR 0x0A # ''Stopping capture...''), CloseCamera cid,
                   Stdout ''Camera closed. Exiting.'']) \<and>
            set evs \<subseteq> {GetExpStatus cid, Sleep_ms 10})"
proof
  assume h: "keep_running st \<and> \<not> signal_at w (tick st) \<and> start_code w (Suc (tick st)) = ASI_SUCCESS \<and>
   signal_at w T \<and> tick st < T \<and>
   (\<forall>t. Suc (tick st) < t \<and> t \<le> T \<longrightarrow> exp_status_at w t = ASI_EXP_WORKING) \<and>
   T - tick st \<le> n"
  let ?st1 = "advance w st"
  let ?st1' = "call w (StartExposure cid False) ?st1"
  from h have k1: "keep_running ?st1" and s: "signal_at w T" by (simp_all add: step_simps)
  from h have i: "tick ?st1' \<le> T \<or> \<not> keep_running ?st1'"
    by (cases "T = Suc (tick st)") (auto simp add: step_simps)
  from h have fuel: "T - tick ?st1' < n" by (simp add: step_simps) linarith
  from poll_exposure_terminates [OF s i fuel] obtain es st2 where
    p: "poll_exposure n w cid ?st1' = Some (es, st2)" by blast
  from h have wk: "\<forall>t. tick ?st1' \<le> t \<and> t \<le> T \<longrightarrow> exp_status_at w t = ASI_EXP_WORKING"
    by (simp add: step_simps)
  from poll_until_signal [OF s i wk p] have stop: "\<not> keep_running (advance w st2)" .
  from h have ok: "start_code w (tick ?st1) = ASI_SUCCESS" by (simp add: step_simps)
  from capture_once_interrupted [OF ok p stop, of lib cfg image_size] obtain evs where
    o: "capture_once n lib w cfg cid image_size ?st1 = Some (Break, advance w st2)"
    and tr: "trace (advance w st2) = trace ?st1 @ StartExposure cid False # evs"
    and ev: "set evs \<subseteq> {GetExpStatus cid, Sleep_ms 10}"
    by blast
  from k1 o have "capture_loop (Suc n) lib w cfg cid image_size st = Some (advance w st2)"
    by (simp add: Let_def)
  then have "capture_and_exit (Suc n) lib w cfg cid image_size st =
              Some (Exit 0,
                trace st @ StartExposure cid False # evs @
                  [Stdout (CHR 0x0A # ''Stopping capture...''), CloseCamera cid,
                   Stdout ''Camera closed. Exiting.''])"
    using tr by (simp add: capture_and_exit_def shutdown_def step_simps)
  with ev show "\<exists>evs. capture_and_exit (Suc n) lib w cfg cid image_size st =
              Some (Exit 0,
                trace st @ StartExposure cid False # evs @
                  [Stdout (CHR 0x0A # ''Stopping capture...''), CloseCamera cid,
                   Stdout ''Camera closed. Exiting.'']) \<and>
            set evs \<subseteq> {GetExpStatus cid, Sleep_ms 10}"
    by (intro exI [of _ evs] conjI)
qed

theorem shutdown_while_exposing_witness:
  "keep_running loop_entry \<and> \<not> signal_at slow_exposure_world (tick loop_entry) \<and>
   start_code slow_exposure_world (Suc (tick loop_entry)) = ASI_SUCCESS \<and>
   signal_at slow_exposure_world 13 \<and> tick loop_entry < 13 \<and>
   exp_status_at slow_exposure_world 9 = ASI_EXP_WORKING \<and>
   exp_status_at slow_exposure_world 12 = ASI_EXP_WORKING \<and>
   capture_and_exit 7 sample_library slow_exposure_world (defaults sample_library) 0 24 loop_entry =
     Some (Exit 0,
       [StartExposure 0 False, GetExpStatus 0, Sleep_ms 10, GetExpStatus 0, Sleep_ms 10,
        Stdout (CHR 0x0A # ''Stopping capture...''), CloseCamera 0,
        Stdout ''Camera closed. Exiting.''])"
proof -
  have run: "capture_and_exit 7 sample_library slow_exposure_world (defaults sample_library) 0 24
      loop_entry =
     Some (Exit 0,
       [StartExposure 0 False, GetExpStatus 0, Sleep_ms 10, GetExpStatus 0, Sleep_ms 10,
        Stdout (CHR 0x0A # ''Stopping capture...''), CloseCamera 0,
        Stdout ''Camera closed. Exiting.''])"
    by code_simp
  from shutdown_while_exposing
    [where st = loop_entry and w = slow_exposure_world and T = 13 and n = 6 and cid = 0
       and lib = sample_library and cfg = "defaults sample_library" and image_size = 24]
  have "\<exists>evs. capture_and_exit (Suc 6) sample_library slow_exposure_world
      (defaults sample_library) 0 24 loop_entry =
        Some (Exit 0, trace loop_entry @ StartExposure 0 False # evs @
          [Stdout (CHR 0x0A # ''Stopping capture...''), CloseCamera 0,
           Stdout ''Camera closed. Exiting.'']) \<and>
        set evs \<subseteq> {GetExpStatus 0, Sleep_ms 10}"
    by (simp add: loop_entry_def slow_exposure_world_def sample_world_def)
  with run show ?thesis
    by (simp add: loop_entry_def slow_exposure_world_def sample_world_def)
qed

text \<open>
  Claim C9. When the polling loop has ended and the flag is found cleared by the test
  after it, the iteration ends by \<open>break\<close> whatever the last status was,
  \<open>ASI_EXP_SUCCESS\<close> included: after \<open>StartExposure\<close> its trace has only polls and
  sleeps.
\<close>

theorem shutdown_beats_completed_exposure:
  "start_code w (tick st) = ASI_SUCCESS \<and>
   poll_exposure n w cid (call w (StartExposure cid False) st) = Some (es, st2) \<and>
   \<not> keep_running (advance w st2) \<longrightarrow>
     capture_once n lib w cfg cid image_size st = Some (Break, advance w st2) \<and>
     (\<exists>evs. trace (advance w st2) = trace st @ StartExposure cid False # evs \<and>
            set evs \<subseteq> {GetExpStatus cid, Sleep_ms 10})"
  using capture_once_interrupted [of w st n cid es st2 lib cfg image_size] by simp

theorem shutdown_beats_completed_exposure_witness:
  "start_code late_signal_world (tick loop_entry) = ASI_SUCCESS \<and>
   poll_exposure 1 late_signal_world 0 (call late_signal_world (StartExposure 0 False) loop_entry)
     = Some (ASI_EXP_SUCCESS, polled_state) \<and>
   \<not> keep_running (advance late_signal_world polled_state) \<and>
   capture_once 1 sample_library late_signal_world (defaults sample_library) 0 24 loop_entry
     = Some (Break, advance late_signal_world polled_state) \<and>
   trace (advance late_signal_world polled_state) = [StartExposure 0 False, GetExpStatus 0, Sleep_ms 10]"
  using shutdown_beats_completed_exposure
    [of late_signal_world loop_entry 1 0 ASI_EXP_SUCCESS polled_state sample_library
       "defaults sample_library" 24]
  by (simp add: late_signal_world_def sample_world_def loop_entry_def polled_state_def
      call_def advance_def emit_def)

subsection \<open>The exposure in microseconds\<close>

lemma rounding_bounds:
  assumes "double_rounding rnd" "0 \<le> y" "y \<le> 2 ^ 53"
  shows "of_int \<lfloor>y\<rfloor> \<le> rnd y" and "rnd y \<le> of_int \<lceil>y\<rceil>"
proof -
  from assms(1) have mono: "\<And>a b. a \<le> b \<Longrightarrow> rnd a \<le> rnd b"
    and fixed: "\<And>k::int. \<bar>k\<bar> \<le> 2 ^ 53 \<Longrightarrow> rnd (of_int k) = of_int k"
    by (simp_all add: double_rounding_def)
  have f0: "0 \<le> \<lfloor>y\<rfloor>" using assms(2) by simp
  have "of_int \<lfloor>y\<rfloor> \<le> y" by simp
  with assms(3) have "(of_int \<lfloor>y\<rfloor> :: real) \<le> 2 ^ 53" by linarith
  then have "(of_int \<lfloor>y\<rfloor> :: real) \<le> of_int (2 ^ 53)" by simp
  then have "\<lfloor>y\<rfloor> \<le> 2 ^ 53" by (simp only: of_int_le_iff)
  with f0 have "\<bar>\<lfloor>y\<rfloor>\<bar> \<le> 2 ^ 53" by simp
  from fixed [OF this] mono [of "of_int \<lfloor>y\<rfloor>" y] show "of_int \<lfloor>y\<rfloor> \<le> rnd y" by simp
  have c0: "0 \<le> \<lceil>y\<rceil>" using assms(2) by (simp add: ceiling_le_iff less_ceiling_iff)
  have "y \<le> of_int (2 ^ 53 :: int)" using assms(3) by simp
  then have "\<lceil>y\<rceil> \<le> 2 ^ 53" by (rule ceiling_le)
  with c0 have "\<bar>\<lceil>y\<rceil>\<bar> \<le> 2 ^ 53" by simp
  from fixed [OF this] mono [of y "of_int \<lceil>y\<rceil>"] show "rnd y \<le> of_int \<lceil>y\<rceil>" by simp
qed

lemma rounding_nonneg:
  assumes "double_rounding rnd" "0 \<le> y"
  shows "0 \<le> rnd y"
proof -
  from assms(1) have mono: "\<And>a b. a \<le> b \<Longrightarrow> rnd a \<le> rnd b"
    and fixed: "\<And>k::int. \<bar>k\<bar> \<le> 2 ^ 53 \<Longrightarrow> rnd (of_int k) = of_int k"
    by (simp_all add: double_rounding_def)
  have "rnd (of_int 0) = of_int 0" by (rule fixed) simp
  then have "rnd 0 = 0" by simp
  with mono [OF assms(2)] show ?thesis by simp
qed

lemma exact_rounding: "double_rounding exact"
  by (simp add: double_rounding_def exact_def)

lemma main_sets_exposure:
  assumes m: "main fuel lib w argv = Some (out, tr)"
    and p: "parse_args lib argv = Inr cfg"
    and s: "1 \<le> connected_cameras w" "property_code w = ASI_SUCCESS"
      "open_code w = ASI_SUCCESS" "init_code w = ASI_SUCCESS"
  shows "SetControlValue (CameraID (camera_info w)) ASI_EXPOSURE
           (to_micros lib (exposure_seconds cfg)) False \<in> set tr"
proof (cases "startup_ok w")
  case False
  with m s have "tr = trace (initial_state lib cfg) @
          [GetNumOfConnectedCameras, GetCameraProperty 0, OpenCamera (CameraID (camera_info w)),
           InitCamera (CameraID (camera_info w))] @ settings lib w cfg"
    unfolding main_unfold [OF p, of fuel w] startup_ok_def
    by (auto split: if_splits)
  then show ?thesis by (simp add: settings_def)
next
  case True
  have "capture_and_exit fuel lib w cfg (CameraID (camera_info w)) (frame_bytes (camera_info w))
      (camera_ready lib w cfg) = Some (out, tr)"
    using m unfolding main_startup_ok [OF p True] .
  from capture_and_exit_result [OF this] obtain evs where
    "tr = trace (camera_ready lib w cfg) @ evs @
        [Stdout (CHR 0x0A # ''Stopping capture...''), CloseCamera (CameraID (camera_info w)),
         Stdout ''Camera closed. Exiting.'']"
    by auto
  then show ?thesis by (simp add: camera_ready_props settings_def)
qed

lemma sample_conversion:
  "to_micros sample_library (exposure_seconds sample_config) = 1000000"
  "1 \<le> connected_cameras sample_world" "property_code sample_world = ASI_SUCCESS"
  "open_code sample_world = ASI_SUCCESS" "init_code sample_world = ASI_SUCCESS"
  "CameraID (camera_info sample_world) = 0"
  by (simp_all add: sample_library_def sample_config_def defaults_def sample_world_def)

text \<open>
  Claim C8, as it is stated, fails: an exposure time of \<open>10\<^sup>1\<^sup>3\<close> seconds is not negative,
  its product with \<open>10\<^sup>6\<close> is \<open>10\<^sup>1\<^sup>9\<close>, a double, and the whole microseconds of it are
  not a value of a 64-bit \<open>long\<close>: the conversion has no value to pass to the camera.
\<close>

theorem long_exposure_has_no_microseconds:
  "0 \<le> (10000000000000 :: real) \<and> double_rounding exact \<and>
   \<not> long_range \<lfloor>(10000000000000 :: real) * 1000000\<rfloor> \<and>
   exposure_micros exact 10000000000000 = None"
  by (simp add: exposure_micros_def exact_def long_range_def c_truncate_def exact_rounding)

text \<open>
  Claim C8, amended. For an exposure time \<open>x \<ge> 0\<close> whose product with \<open>10\<^sup>6\<close>, as a
  double, is below \<open>2\<^sup>6\<^sup>3\<close>, the conversion has a value: the whole part of the product as
  the double arithmetic gives it. It is never negative. Up to \<open>2\<^sup>5\<^sup>3\<close> microseconds it is
  the duration in microseconds rounded down or up to a whole number, and when the
  product is exact it is the duration in whole microseconds, rounded down. In a run
  that reaches the settings of the camera, with a library that computes this value, it
  is the value passed for \<open>ASI_EXPOSURE\<close>.
\<close>

theorem exposure_micros_in_range:
  "double_rounding rnd \<and> 0 \<le> x \<and> rnd (x * 1000000) < 2 ^ 63 \<longrightarrow>
     exposure_micros rnd x = Some \<lfloor>rnd (x * 1000000)\<rfloor> \<and>
     0 \<le> \<lfloor>rnd (x * 1000000)\<rfloor> \<and>
     (x * 1000000 \<le> 2 ^ 53 \<longrightarrow>
        \<lfloor>x * 1000000\<rfloor> \<le> \<lfloor>rnd (x * 1000000)\<rfloor> \<and> \<lfloor>rnd (x * 1000000)\<rfloor> \<le> \<lceil>x * 1000000\<rceil>) \<and>
     (rnd (x * 1000000) = x * 1000000 \<longrightarrow> exposure_micros rnd x = Some \<lfloor>x * 1000000\<rfloor>) \<and>
     (main fuel lib w argv = Some (out, tr) \<and> parse_args lib argv = Inr cfg \<and>
      1 \<le> connected_cameras w \<and> property_code w = ASI_SUCCESS \<and>
      open_code w = ASI_SUCCESS \<and> init_code w = ASI_SUCCESS \<and>
      exposure_micros rnd x = Some (to_micros lib (exposure_seconds cfg)) \<longrightarrow>
        SetControlValue (CameraID (camera_info w)) ASI_EXPOSURE \<lfloor>rnd (x * 1000000)\<rfloor> False
          \<in> set tr)"
proof (intro impI)
  assume h: "double_rounding rnd \<and> 0 \<le> x \<and> rnd (x * 1000000) < 2 ^ 63"
  let ?y = "x * 1000000"
  from h have r: "double_rounding rnd" and y0: "0 \<le> ?y" and up: "rnd ?y < 2 ^ 63"
    by simp_all
  from rounding_nonneg [OF r y0] have p0: "0 \<le> rnd ?y" .
  then have t: "c_truncate (rnd ?y) = \<lfloor>rnd ?y\<rfloor>" by (simp add: c_truncate_def)
  from p0 have f0: "0 \<le> \<lfloor>rnd ?y\<rfloor>" by simp
  have "rnd ?y < of_int (2 ^ 63 :: int)" using up by simp
  then have "\<lfloor>rnd ?y\<rfloor> < 2 ^ 63" by (simp only: floor_less_iff)
  with f0 have lr: "long_range \<lfloor>rnd ?y\<rfloor>" by (simp add: long_range_def)
  have e: "exposure_micros rnd x = Some \<lfloor>rnd ?y\<rfloor>"
    using lr t by (simp add: exposure_micros_def Let_def)
  have b: "?y \<le> 2 ^ 53 \<longrightarrow> \<lfloor>?y\<rfloor> \<le> \<lfloor>rnd ?y\<rfloor> \<and> \<lfloor>rnd ?y\<rfloor> \<le> \<lceil>?y\<rceil>"
  proof (intro impI conjI)
    assume small: "?y \<le> 2 ^ 53"
    from rounding_bounds(1) [OF r y0 small] show "\<lfloor>?y\<rfloor> \<le> \<lfloor>rnd ?y\<rfloor>"
      by (simp add: le_floor_iff)
    from rounding_bounds(2) [OF r y0 small] show "\<lfloor>rnd ?y\<rfloor> \<le> \<lceil>?y\<rceil>"
      using floor_mono [of "rnd ?y" "of_int \<lceil>?y\<rceil>"] by simp
  qed
  have x: "rnd ?y = ?y \<longrightarrow> exposure_micros rnd x = Some \<lfloor>?y\<rfloor>"
    using e by simp
  have s: "main fuel lib w argv = Some (out, tr) \<and> parse_args lib argv = Inr cfg \<and>
      1 \<le> connected_cameras w \<and> property_code w = ASI_SUCCESS \<and>
      open_code w = ASI_SUCCESS \<and> init_code w = ASI_SUCCESS \<and>
      exposure_micros rnd x = Some (to_micros lib (exposure_seconds cfg)) \<longrightarrow>
      SetControlValue (CameraID (camera_info w)) ASI_EXPOSURE \<lfloor>rnd ?y\<rfloor> False \<in> set tr"
  proof (rule impI)
    assume g: "main fuel lib w argv = Some (out, tr) \<and> parse_args lib argv = Inr cfg \<and>
      1 \<le> connected_cameras w \<and> property_code w = ASI_SUCCESS \<and>
      open_code w = ASI_SUCCESS \<and> init_code w = ASI_SUCCESS \<and>
      exposure_micros rnd x = Some (to_micros lib (exposure_seconds cfg))"
    from g have m: "main fuel lib w argv = Some (out, tr)"
      and p: "parse_args lib argv = Inr cfg"
      and c: "1 \<le> connected_cameras w" "property_code w = ASI_SUCCESS"
        "open_code w = ASI_SUCCESS" "init_code w = ASI_SUCCESS"
      and v: "exposure_micros rnd x = Some (to_micros lib (exposure_seconds cfg))"
      by simp_all
    from v e have "to_micros lib (exposure_seconds cfg) = \<lfloor>rnd ?y\<rfloor>" by simp
    with main_sets_exposure [OF m p c]
    show "SetControlValue (CameraID (camera_info w)) ASI_EXPOSURE \<lfloor>rnd ?y\<rfloor> False \<in> set tr"
      by simp
  qed
  show "exposure_micros rnd x = Some \<lfloor>rnd (x * 1000000)\<rfloor> \<and>
     0 \<le> \<lfloor>rnd (x * 1000000)\<rfloor> \<and>
     (x * 1000000 \<le> 2 ^ 53 \<longrightarrow>
        \<lfloor>x * 1000000\<rfloor> \<le> \<lfloor>rnd (x * 1000000)\<rfloor> \<and> \<lfloor>rnd (x * 1000000)\<rfloor> \<le> \<lceil>x * 1000000\<rceil>) \<and>
     (rnd (x * 1000000) = x * 1000000 \<longrightarrow> exposure_micros rnd x = Some \<lfloor>x * 1000000\<rfloor>) \<and>
     (main fuel lib w argv = Some (out, tr) \<and> parse_args lib argv = Inr cfg \<and>
      1 \<le> connected_cameras w \<and> property_code w = ASI_SUCCESS \<and>
      open_code w = ASI_SUCCESS \<and> init_code w = ASI_SUCCESS \<and>
      exposure_micros rnd x = Some (to_micros lib (exposure_seconds cfg)) \<longrightarrow>
        SetControlValue (CameraID (camera_info w)) ASI_EXPOSURE \<lfloor>rnd (x * 1000000)\<rfloor> False
          \<in> set tr)"
    by (intro conjI e f0 b x s)
qed

theorem exposure_micros_in_range_witness:
  "double_rounding exact \<and> 0 \<le> (1 :: real) \<and> exact (1 * 1000000) < 2 ^ 63 \<and>
   (1 :: real) * 1000000 \<le> 2 ^ 53 \<and> exact (1 * 1000000) = 1 * 1000000 \<and>
   main 41 sample_library sample_world sample_argv = Some (Exit 0, run_trace) \<and>
   parse_args sample_library sample_argv = Inr sample_config \<and>
   1 \<le> connected_cameras sample_world \<and> property_code sample_world = ASI_SUCCESS \<and>
   open_code sample_world = ASI_SUCCESS \<and> init_code sample_world = ASI_SUCCESS \<and>
   exposure_micros exact 1 = Some (to_micros sample_library (exposure_seconds sample_config)) \<and>
   exposure_micros exact 1 = Some 1000000 \<and>
   SetControlValue 0 ASI_EXPOSURE 1000000 False \<in> set run_trace"
  using exposure_micros_in_range [where rnd = exact and x = 1 and fuel = 41
      and lib = sample_library and w = sample_world and argv = sample_argv
      and out = "Exit 0" and tr = run_trace and cfg = sample_config]
    exact_rounding sample_run sample_parse sample_conversion
  by (simp add: exact_def)

subsection \<open>Failure to start an exposure\<close>

text \<open>
  Claim C4. At the head of the loop, in any iteration, with the flag set: when
  \<open>ASIStartExposure\<close> fails, the program prints the error, leaves the loop, closes the
  camera and exits with code 0.
\<close>

theorem start_failure_exits_zero:
  "keep_running st \<and> \<not> signal_at w (tick st) \<and> start_code w (Suc (tick st)) \<noteq> ASI_SUCCESS \<longrightarrow>
     capture_and_exit (Suc n) lib w cfg cid image_size st =
       Some (Exit 0,
         trace st @
           [StartExposure cid False, Stderr ''Error starting exposure'',
            Stdout (CHR 0x0A # ''Stopping capture...''), CloseCamera cid,
            Stdout ''Camera closed. Exiting.''])"
  by (simp add: capture_and_exit_def capture_once_unfold shutdown_def Let_def step_simps)

theorem start_failure_exits_zero_witness:
  "keep_running loop_entry \<and> \<not> signal_at no_trigger_world (tick loop_entry) \<and>
   start_code no_trigger_world (Suc (tick loop_entry)) \<noteq> ASI_SUCCESS \<and>
   capture_and_exit (Suc 0) sample_library no_trigger_world (defaults sample_library) 0 24
       loop_entry =
     Some (Exit 0,
       [StartExposure 0 False, Stderr ''Error starting exposure'',
        Stdout (CHR 0x0A # ''Stopping capture...''), CloseCamera 0,
        Stdout ''Camera closed. Exiting.''])"
  using start_failure_exits_zero
    [where st = loop_entry and w = no_trigger_world and n = 0 and lib = sample_library
       and cfg = "defaults sample_library" and cid = 0 and image_size = 24]
  by (simp add: loop_entry_def no_trigger_world_def sample_world_def)

subsection \<open>Exit codes\<close>

text \<open>
  Claim C5. With a command line that parses: the process exits with code 1, after a
  message on \<open>cerr\<close> and before any exposure is started, when no camera is connected,
  when the properties cannot be read, when the camera cannot be opened and when it cannot
  be initialised. After a successful start-up every run that ends, ends with the camera
  closed and code 0; and a run ends, with code 0, whenever a signal is delivered.
\<close>

theorem exit_codes:
  "parse_args lib argv = Inr cfg \<longrightarrow>
   (connected_cameras w < 1 \<longrightarrow>
      main fuel lib w argv =
        Some (Exit 1, trace (initial_state lib cfg) @
          [GetNumOfConnectedCameras, Stderr ''No cameras connected!''])) \<and>
   (1 \<le> connected_cameras w \<and> property_code w \<noteq> ASI_SUCCESS \<longrightarrow>
      main fuel lib w argv =
        Some (Exit 1, trace (initial_state lib cfg) @
          [GetNumOfConnectedCameras, GetCameraProperty 0,
           Stderr ''Error retrieving camera properties!''])) \<and>
   (1 \<le> connected_cameras w \<and> property_code w = ASI_SUCCESS \<and> open_code w \<noteq> ASI_SUCCESS \<longrightarrow>
      main fuel lib w argv =
        Some (Exit 1, trace (initial_state lib cfg) @
          [GetNumOfConnectedCameras, GetCameraProperty 0, OpenCamera (CameraID (camera_info w)),
           Stderr ''Error initializing camera''])) \<and>
   (1 \<le> connected_cameras w \<and> property_code w = ASI_SUCCESS \<and> open_code w = ASI_SUCCESS \<and>
    init_code w \<noteq> ASI_SUCCESS \<longrightarrow>
      main fuel lib w argv =
        Some (Exit 1, trace (initial_state lib cfg) @
          [GetNumOfConnectedCameras, GetCameraProperty 0, OpenCamera (CameraID (camera_info w)),
           InitCamera (CameraID (camera_info w)), Stderr ''Error initializing camera''])) \<and>
   (startup_ok w \<and> main fuel lib w argv = Some (out, tr) \<longrightarrow>
      out = Exit 0 \<and>
      (\<exists>evs. tr = trace (camera_ready lib w cfg) @ evs @
          [Stdout (CHR 0x0A # ''Stopping capture...''), CloseCamera (CameraID (camera_info w)),
           Stdout ''Camera closed. Exiting.''])) \<and>
   (startup_ok w \<and> signal_at w T \<longrightarrow> (\<exists>tr'. main (Suc T) lib w argv = Some (Exit 0, tr')))"
proof (intro impI conjI)
  assume p: "parse_args lib argv = Inr cfg"
  note u = main_unfold [OF p, of fuel w]
  {
    assume "connected_cameras w < 1"
    then show "main fuel lib w argv =
        Some (Exit 1, trace (initial_state lib cfg) @
          [GetNumOfConnectedCameras, Stderr ''No cameras connected!''])"
      unfolding u by simp
  }
  {
    assume "1 \<le> connected_cameras w \<and> property_code w \<noteq> ASI_SUCCESS"
    then show "main fuel lib w argv =
        Some (Exit 1, trace (initial_state lib cfg) @
          [GetNumOfConnectedCameras, GetCameraProperty 0,
           Stderr ''Error retrieving camera properties!''])"
      unfolding u by simp
  }
  {
    assume "1 \<le> connected_cameras w \<and> property_code w = ASI_SUCCESS \<and> open_code w \<noteq> ASI_SUCCESS"
    then show "main fuel lib w argv =
        Some (Exit 1, trace (initial_state lib cfg) @
          [GetNumOfConnectedCameras, GetCameraProperty 0, OpenCamera (CameraID (camera_info w)),
           Stderr ''Error initializing camera''])"
      unfolding u by simp
  }
  {
    assume "1 \<le> connected_cameras w \<and> property_code w = ASI_SUCCESS \<and> open_code w = ASI_SUCCESS \<and>
      init_code w \<noteq> ASI_SUCCESS"
    then show "main fuel lib w argv =
        Some (Exit 1, trace (initial_state lib cfg) @
          [GetNumOfConnectedCameras, GetCameraProperty 0, OpenCamera (CameraID (camera_info w)),
           InitCamera (CameraID (camera_info w)), Stderr ''Error initializing camera''])"
      unfolding u by simp
  }
  {
    assume "startup_ok w \<and> main fuel lib w argv = Some (out, tr)"
    then have s: "startup_ok w" and m: "main fuel lib w argv = Some (out, tr)"
      by simp_all
    have "capture_and_exit fuel lib w cfg (CameraID (camera_info w))
        (frame_bytes (camera_info w)) (camera_ready lib w cfg) = Some (out, tr)"
      using m unfolding main_startup_ok [OF p s] .
    note r = capture_and_exit_result [OF this]
    from r show "out = Exit 0" by (rule conjunct1)
    from r have "\<exists>evs. tr = trace (camera_ready lib w cfg) @ evs @
          [Stdout (CHR 0x0A # ''Stopping capture...''), CloseCamera (CameraID (camera_info w)),
           Stdout ''Camera closed. Exiting.''] \<and>
          complete_writes (nat (frame_bytes (camera_info w))) evs"
      by (rule conjunct2)
    then obtain evs where t: "tr = trace (camera_ready lib w cfg) @ evs @
          [Stdout (CHR 0x0A # ''Stopping capture...''), CloseCamera (CameraID (camera_info w)),
           Stdout ''Camera closed. Exiting.'']"
      by auto
    show "\<exists>evs. tr = trace (camera_ready lib w cfg) @ evs @
          [Stdout (CHR 0x0A # ''Stopping capture...''), CloseCamera (CameraID (camera_info w)),
           Stdout ''Camera closed. Exiting.'']"
      by (rule exI [of _ evs]) (rule t)
  }
  {
    assume "startup_ok w \<and> signal_at w T"
    then have "startup_ok w" and "signal_at w T" by simp_all
    then show "\<exists>tr'. main (Suc T) lib w argv = Some (Exit 0, tr')"
      by (rule main_terminates_on_signal [OF p])
  }
qed

theorem exit_codes_witness:
  "parse_args sample_library sample_argv = Inr sample_config \<and>
   connected_cameras no_camera_world < 1 \<and>
   main 1 sample_library no_camera_world sample_argv =
     Some (Exit 1, trace (initial_state sample_library sample_config) @
       [GetNumOfConnectedCameras, Stderr ''No cameras connected!'']) \<and>
   1 \<le> connected_cameras no_property_world \<and> property_code no_property_world \<noteq> ASI_SUCCESS \<and>
   main 1 sample_library no_property_world sample_argv =
     Some (Exit 1, trace (initial_state sample_library sample_config) @
       [GetNumOfConnectedCameras, GetCameraProperty 0,
        Stderr ''Error retrieving camera properties!'']) \<and>
   open_code no_open_world \<noteq> ASI_SUCCESS \<and>
   main 1 sample_library no_open_world sample_argv =
     Some (Exit 1, trace (initial_state sample_library sample_config) @
       [GetNumOfConnectedCameras, GetCameraProperty 0, OpenCamera 0,
        Stderr ''Error initializing camera'']) \<and>
   open_code init_failure_world = ASI_SUCCESS \<and> init_code init_failure_world \<noteq> ASI_SUCCESS \<and>
   main 1 sample_library init_failure_world sample_argv =
     Some (Exit 1, trace (initial_state sample_library sample_config) @
       [GetNumOfConnectedCameras, GetCameraProperty 0, OpenCamera 0, InitCamera 0,
        Stderr ''Error initializing camera'']) \<and>
   startup_ok sample_world \<and> signal_at sample_world 40 \<and>
   main 41 sample_library sample_world sample_argv = Some (Exit 0, run_trace)"
proof -
  note p = sample_parse
  have 1: "main 1 sample_library no_camera_world sample_argv =
     Some (Exit 1, trace (initial_state sample_library sample_config) @
       [GetNumOfConnectedCameras, Stderr ''No cameras connected!''])"
    using exit_codes [where lib = sample_library and argv = sample_argv and cfg = sample_config
        and w = no_camera_world and fuel = 1] p
    by (simp add: no_camera_world_def sample_world_def)
  have 2: "main 1 sample_library no_property_world sample_argv =
     Some (Exit 1, trace (initial_state sample_library sample_config) @
       [GetNumOfConnectedCameras, GetCameraProperty 0,
        Stderr ''Error retrieving camera properties!''])"
    using exit_codes [where lib = sample_library and argv = sample_argv and cfg = sample_config
        and w = no_property_world and fuel = 1] p
    by (simp add: no_property_world_def sample_world_def)
  have 3: "main 1 sample_library no_open_world sample_argv =
     Some (Exit 1, trace (initial_state sample_library sample_config) @
       [GetNumOfConnectedCameras, GetCameraProperty 0, OpenCamera 0,
        Stderr ''Error initializing camera''])"
    using exit_codes [where lib = sample_library and argv = sample_argv and cfg = sample_config
        and w = no_open_world and fuel = 1] p
    by (simp add: no_open_world_def sample_world_def)
  have 4: "main 1 sample_library init_failure_world sample_argv =
     Some (Exit 1, trace (initial_state sample_library sample_config) @
       [GetNumOfConnectedCameras, GetCameraProperty 0, OpenCamera 0, InitCamera 0,
        Stderr ''Error initializing camera''])"
    using exit_codes [where lib = sample_library and argv = sample_argv and cfg = sample_config
        and w = init_failure_world and fuel = 1] p
    by (simp add: init_failure_world_def sample_world_def)
  have 5: "\<exists>tr'. main (Suc 40) sample_library sample_world sample_argv = Some (Exit 0, tr')"
    using exit_codes [where lib = sample_library and argv = sample_argv and cfg = sample_config
        and w = sample_world and T = 40] p sample_startup_ok
    by (simp add: sample_world_def)
  have h: "connected_cameras no_camera_world < 1"
    "1 \<le> connected_cameras no_property_world" "property_code no_property_world \<noteq> ASI_SUCCESS"
    "open_code no_open_world \<noteq> ASI_SUCCESS"
    "open_code init_failure_world = ASI_SUCCESS" "init_code init_failure_world \<noteq> ASI_SUCCESS"
    "signal_at sample_world 40"
    by (simp_all add: no_camera_world_def no_property_world_def no_open_world_def
        init_failure_world_def sample_world_def)
  from 5 sample_run have 6: "main 41 sample_library sample_world sample_argv = Some (Exit 0, run_trace)"
    by simp
  show ?thesis by (intro conjI p 1 2 3 4 6 h sample_startup_ok)
qed

subsection \<open>The size of the files\<close>

text \<open>
  What the predicate excludes: a file that is opened and closed, or opened and announced,
  with nothing written; a write of another size; a write that is not closed; a file that
  is opened and left.
\<close>

lemma complete_writes_rejects:
  "\<not> complete_writes 24 [FileOpen ''f'', FileClose ''f'', saved_announcement ''f'']"
  "\<not> complete_writes 24 [FileOpen ''f'', saved_announcement ''f'']"
  "\<not> complete_writes 24 [FileOpen ''f'', FileWrite ''f'' 23, FileClose ''f'']"
  "\<not> complete_writes 24 [FileOpen ''f'', FileWrite ''f'' 24]"
  "\<not> complete_writes 24 [FileOpen ''f'']"
  "\<not> complete_writes 24 [FileWrite ''f'' 24, FileClose ''f'']"
  by (simp_all add: complete_writes_def saved_announcement_def)

text \<open>
  Claim C6. In every run that ends, the file events come in two shapes only: a file is
  opened, exactly \<open>width \<times> height \<times> bytes_per_pixel\<close> bytes are written to it and it is
  closed, with \<open>bytes_per_pixel\<close> 2 above 8 bits and 1 otherwise; or the attempt to open
  the file is followed at once by the message that it could not be opened. There is no
  write of another size, and no file that is opened and left without its write. The code
  that saves a frame does the first when the file can be opened, and then announces the
  file and waits; it does the second when the file cannot be opened, and then writes
  nothing.
\<close>

theorem written_artifact_size:
  "(main fuel lib w argv = Some (out, tr) \<longrightarrow>
     complete_writes (nat (frame_bytes (camera_info w))) tr \<and>
     (\<forall>p n. FileWrite p n \<in> set tr \<longrightarrow> int n = frame_bytes (camera_info w))) \<and>
   (save_frame k lib w cfg nbytes st = Some (c, st') \<longrightarrow>
     (file_ok w (Suc (tick st)) \<longrightarrow>
        (\<exists>m. trace st' = trace st @
           [GetTimeOfDay, FileOpen (frame_path w cfg st),
            FileWrite (frame_path w cfg st) nbytes, FileClose (frame_path w cfg st),
            saved_announcement (frame_path w cfg st)] @ replicate m (Sleep_ms 100))) \<and>
     (\<not> file_ok w (Suc (tick st)) \<longrightarrow>
        trace st' = trace st @
          [GetTimeOfDay, FileOpen (frame_path w cfg st),
           Stderr (''Error opening file for writing: '' @ frame_path w cfg st)]))"
proof (intro impI conjI allI)
  assume a: "main fuel lib w argv = Some (out, tr)"
  from main_writes [OF a] show "complete_writes (nat (frame_bytes (camera_info w))) tr"
    by simp
  fix p n
  assume m: "FileWrite p n \<in> set tr"
  from main_writes [OF a] m have cw: "complete_writes (nat (frame_bytes (camera_info w))) tr"
    and nn: "0 \<le> frame_bytes (camera_info w)"
    by auto
  from complete_writes_size [OF cw m] nn show "int n = frame_bytes (camera_info w)"
    by simp
next
  assume s: "save_frame k lib w cfg nbytes st = Some (c, st')" and ok: "file_ok w (Suc (tick st))"
  from save_frame_traces(2) [OF s ok]
  show "\<exists>m. trace st' = trace st @
           [GetTimeOfDay, FileOpen (frame_path w cfg st),
            FileWrite (frame_path w cfg st) nbytes, FileClose (frame_path w cfg st),
            saved_announcement (frame_path w cfg st)] @ replicate m (Sleep_ms 100)" .
next
  assume s: "save_frame k lib w cfg nbytes st = Some (c, st')"
    and no: "\<not> file_ok w (Suc (tick st))"
  from save_frame_traces(3) [OF s no]
  show "trace st' = trace st @
          [GetTimeOfDay, FileOpen (frame_path w cfg st),
           Stderr (''Error opening file for writing: '' @ frame_path w cfg st)]" .
qed

theorem written_artifact_size_witness:
  "main 41 sample_library sample_world sample_argv = Some (Exit 0, run_trace) \<and>
   frame_bytes (camera_info sample_world) = 24 \<and>
   FileWrite ''./exposure-20261102-130705-061.bin'' 24 \<in> set run_trace \<and>
   complete_writes 24 run_trace \<and>
   save_frame 3 sample_library steady_world sample_config 24 fetched_state =
     Some (Continue, kept_state) \<and>
   file_ok steady_world (Suc (tick fetched_state)) \<and>
   save_frame 3 sample_library no_file_world sample_config 24 fetched_state =
     Some (Continue, refused_state) \<and>
   \<not> file_ok no_file_world (Suc (tick fetched_state)) \<and>
   trace refused_state = trace fetched_state @
     [GetTimeOfDay, FileOpen ''./exposure-20261102-130705-057.bin'',
      Stderr ''Error opening file for writing: ./exposure-20261102-130705-057.bin'']"
proof -
  have fb: "frame_bytes (camera_info sample_world) = 24"
    by (simp add: frame_bytes_def sample_world_def)
  have m: "FileWrite ''./exposure-20261102-130705-061.bin'' 24 \<in> set run_trace"
    by (simp add: run_trace_def)
  from written_artifact_size [where fuel = 41 and lib = sample_library and w = sample_world
      and argv = sample_argv and out = "Exit 0" and tr = run_trace]
    sample_run
  have "complete_writes (nat (frame_bytes (camera_info sample_world))) run_trace"
    by simp
  then have cw: "complete_writes 24 run_trace" unfolding fb by simp
  from written_artifact_size [where k = 3 and lib = sample_library and w = no_file_world
      and cfg = sample_config and nbytes = 24 and st = fetched_state and c = Continue
      and st' = refused_state]
    sample_saves(2) sample_saves(4)
  have "trace refused_state = trace fetched_state @
     [GetTimeOfDay, FileOpen (frame_path no_file_world sample_config fetched_state),
      Stderr (''Error opening file for writing: '' @
        frame_path no_file_world sample_config fetched_state)]"
    by simp
  then have r: "trace refused_state = trace fetched_state @
     [GetTimeOfDay, FileOpen ''./exposure-20261102-130705-057.bin'',
      Stderr ''Error opening file for writing: ./exposure-20261102-130705-057.bin'']"
    unfolding sample_saves(5) by simp
  from sample_run fb m cw sample_saves(1) sample_saves(3) sample_saves(2) sample_saves(4) r
  show ?thesis by (intro conjI)
qed

end
